theory Spec2Isabelle
  imports Complex_Main "HOL-Library.Multiset" "HOL-Library.Sublist"
begin

section \<open>JavaScript values\<close>

text \<open>
  The script \<^verbatim>\<open>offer_curation.ts\<close> works on values produced by \<^verbatim>\<open>JSON.parse\<close>.
  A number is an IEEE double: a finite double is a rational number, and the only
  operations the script applies to numbers (\<^verbatim>\<open>Math.trunc\<close>, \<^verbatim>\<open>Math.min\<close>,
  \<^verbatim>\<open>Math.max\<close>, comparisons, \<^verbatim>\<open>Number.isFinite\<close>, \<^verbatim>\<open>Number.isNaN\<close>) are exact
  on doubles, so a finite number is modelled by its rational value. The value
  \<^verbatim>\<open>undefined\<close> is \<open>None\<close> of an option type.
\<close>

datatype jsnum = Finite rat | PosInf | NegInf | NaN

datatype json =
    JNull
  | JBool bool
  | JNum jsnum
  | JStr string
  | JArr "json list"
  | JObj "(string \<times> json) list"

text \<open>The exceptions the script can raise; a function that can throw returns a sum.\<close>

datatype error = TypeError | RangeError

text \<open>
  Built-ins of the ECMAScript runtime whose result depends on the number
  formatting, the JSON grammar, the locale or the engine of the host are parameters of
  the model. \<open>JSON_parse\<close> returns \<open>None\<close> where \<^verbatim>\<open>JSON.parse\<close> throws a SyntaxError;
  \<open>TypeError_message\<close> is the message text of the engine's TypeError.
\<close>

record js_runtime =
  JSON_parse :: "string \<Rightarrow> json option"
  JSON_stringify :: "json \<Rightarrow> string"
  Number_toString :: "jsnum \<Rightarrow> string"
  StringToNumber :: "string \<Rightarrow> jsnum"
  localeCompare :: "string \<Rightarrow> string \<Rightarrow> int"
  TypeError_message :: string

fun truthy :: "json \<Rightarrow> bool" where
  "truthy JNull = False"
| "truthy (JBool b) = b"
| "truthy (JNum (Finite q)) = (q \<noteq> 0)"
| "truthy (JNum NaN) = False"
| "truthy (JNum PosInf) = True"
| "truthy (JNum NegInf) = True"
| "truthy (JStr s) = (s \<noteq> [])"
| "truthy (JArr xs) = True"
| "truthy (JObj kvs) = True"

definition truthy_opt :: "json option \<Rightarrow> bool" where
  "truthy_opt v = (case v of None \<Rightarrow> False | Some x \<Rightarrow> truthy x)"

definition str_truthy :: "string option \<Rightarrow> bool" where
  "str_truthy s = (case s of None \<Rightarrow> False | Some t \<Rightarrow> t \<noteq> [])"

text \<open>\<^verbatim>\<open>a || b\<close> on possibly undefined JSON values.\<close>

definition js_or :: "json option \<Rightarrow> json option \<Rightarrow> json option" where
  "js_or a b = (if truthy_opt a then a else b)"

text \<open>
  Property read \<^verbatim>\<open>v.k\<close> for the data keys the script uses. An object is an association
  list in which the first binding of a key is the one in force; arrays and primitive
  values have none of these keys. Reading a property of \<^verbatim>\<open>null\<close> throws: callers either
  guard against it or model the TypeError.
\<close>

fun get_prop :: "json \<Rightarrow> string \<Rightarrow> json option" where
  "get_prop (JObj kvs) k = map_of kvs k"
| "get_prop v k = None"

text \<open>\<^verbatim>\<open>typeof v === 'object'\<close> for a truthy value.\<close>

fun object_like :: "json \<Rightarrow> bool" where
  "object_like (JArr xs) = True"
| "object_like (JObj kvs) = True"
| "object_like v = False"

fun join :: "string \<Rightarrow> string list \<Rightarrow> string" where
  "join sep [] = []"
| "join sep [x] = x"
| "join sep (x # y # ys) = x @ sep @ join sep (y # ys)"

text \<open>
  \<^verbatim>\<open>String(v)\<close>, which is also what \<^verbatim>\<open>v.toString()\<close> and a template literal compute
  for a value that is not \<^verbatim>\<open>null\<close>. An object is converted through its
  \<^verbatim>\<open>toString\<close> property: a parsed object that has a key \<^verbatim>\<open>toString\<close> of its own
  holds a value there that cannot be called, and the conversion throws a TypeError;
  every other object prints as \<^verbatim>\<open>[object Object]\<close>. An array joins the conversions
  of its elements, a \<^verbatim>\<open>null\<close> element printing as nothing, and throws when one of
  them throws.
\<close>

fun js_String :: "js_runtime \<Rightarrow> json \<Rightarrow> error + string"
  and js_String_elements :: "js_runtime \<Rightarrow> json list \<Rightarrow> error + string list" where
  "js_String rt JNull = Inr ''null''"
| "js_String rt (JBool b) = Inr (if b then ''true'' else ''false'')"
| "js_String rt (JNum n) = Inr (Number_toString rt n)"
| "js_String rt (JStr s) = Inr s"
| "js_String rt (JArr xs) =
     (case js_String_elements rt xs of Inl e \<Rightarrow> Inl e | Inr parts \<Rightarrow> Inr (join '','' parts))"
| "js_String rt (JObj kvs) =
     (if map_of kvs ''toString'' \<noteq> None then Inl TypeError else Inr ''[object Object]'')"
| "js_String_elements rt [] = Inr []"
| "js_String_elements rt (x # xs) =
     (case (if x = JNull then Inr [] else js_String rt x) of
        Inl e \<Rightarrow> Inl e
      | Inr part \<Rightarrow>
          (case js_String_elements rt xs of Inl e \<Rightarrow> Inl e | Inr parts \<Rightarrow> Inr (part # parts)))"

text \<open>
  Strings are lists of 8-bit characters read as the code points 0 to 255.
  \<^verbatim>\<open>trim\<close> removes white space and line terminators at both ends.
\<close>

definition is_space :: "char \<Rightarrow> bool" where
  "is_space c = (c \<in> {CHR 0x09, CHR 0x0A, CHR 0x0B, CHR 0x0C, CHR 0x0D, CHR 0x20, CHR 0xA0})"

definition trim :: "string \<Rightarrow> string" where
  "trim s = rev (dropWhile is_space (rev (dropWhile is_space s)))"

text \<open>Decimal digits and the value of a digit string.\<close>

definition is_digit :: "char \<Rightarrow> bool" where
  "is_digit c = (48 \<le> (of_char c :: nat) \<and> (of_char c :: nat) \<le> 57)"

definition digit_value :: "char \<Rightarrow> nat" where
  "digit_value c = of_char c - 48"

definition digits_value :: "string \<Rightarrow> nat" where
  "digits_value ds = foldl (\<lambda>acc c. 10 * acc + digit_value c) 0 ds"

section \<open>Image Resolver: \<^verbatim>\<open>extractImageDetails\<close>\<close>

record ImageDetail =
  url :: "string option"
  type :: "string option"
  alt :: "string option"
  description :: "string option"
  width :: "jsnum option"
  height :: "jsnum option"
  source :: "string option"

definition str_field :: "json \<Rightarrow> string \<Rightarrow> string option" where
  "str_field v k = (case get_prop v k of Some (JStr s) \<Rightarrow> Some s | _ \<Rightarrow> None)"

definition num_field :: "json \<Rightarrow> string \<Rightarrow> jsnum option" where
  "num_field v k = (case get_prop v k of Some (JNum n) \<Rightarrow> Some n | _ \<Rightarrow> None)"

definition image_detail :: "json \<Rightarrow> string \<Rightarrow> ImageDetail" where
  "image_detail v src =
     \<lparr> url = str_field v ''image_url_host'',
       type = str_field v ''image_type'',
       alt = str_field v ''image_alt'',
       description = str_field v ''image_desc'',
       width = num_field v ''width'',
       height = num_field v ''height'',
       source = Some src \<rparr>"

fun nested_loop :: "json list \<Rightarrow> ImageDetail list \<Rightarrow> ImageDetail list" where
  "nested_loop [] details = details"
| "nested_loop (item # items) details =
     (if \<not> object_like item then nested_loop items details
      else if \<not> str_truthy (str_field item ''image_url_host'') then nested_loop items details
      else nested_loop items (details @ [image_detail item ''nested'']))"

fun images_loop :: "json list \<Rightarrow> ImageDetail list \<Rightarrow> ImageDetail list" where
  "images_loop [] details = details"
| "images_loop (img # rest) details =
     (if \<not> object_like img then images_loop rest details
      else
        let details1 =
              (if str_truthy (str_field img ''image_url_host'')
               then details @ [image_detail img ''primary''] else details);
            details2 =
              (case get_prop img ''images'' of
                 Some (JArr nested) \<Rightarrow> nested_loop nested details1
               | _ \<Rightarrow> details1)
        in images_loop rest details2)"

fun unique_loop :: "ImageDetail list \<Rightarrow> string set \<Rightarrow> ImageDetail list \<Rightarrow> ImageDetail list" where
  "unique_loop [] seen unique = unique"
| "unique_loop (detail # rest) seen unique =
     (case url detail of
        None \<Rightarrow> unique_loop rest seen unique
      | Some u \<Rightarrow>
          if u = [] \<or> u \<in> seen then unique_loop rest seen unique
          else unique_loop rest (insert u seen) (unique @ [detail]))"

definition extractImageDetails :: "json option \<Rightarrow> ImageDetail list" where
  "extractImageDetails imgs =
     (case imgs of
        Some (JArr xs) \<Rightarrow> unique_loop (images_loop xs []) {} []
      | _ \<Rightarrow> [])"

section \<open>Description Renderer: \<^verbatim>\<open>renderSections\<close>\<close>

text \<open>\<^verbatim>\<open>(v || '').toString().trim()\<close>\<close>

definition to_trimmed :: "js_runtime \<Rightarrow> json option \<Rightarrow> error + string" where
  "to_trimmed rt v =
     (case v of
        None \<Rightarrow> Inr (trim [])
      | Some x \<Rightarrow>
          if truthy x
          then (case js_String rt x of Inl e \<Rightarrow> Inl e | Inr s \<Rightarrow> Inr (trim s))
          else Inr (trim []))"

fun groups_loop :: "js_runtime \<Rightarrow> json list \<Rightarrow> string list \<Rightarrow> error + string list" where
  "groups_loop rt [] groupBlocks = Inr groupBlocks"
| "groups_loop rt (g # gs) groupBlocks =
     (if \<not> truthy g then groups_loop rt gs groupBlocks
      else
        case to_trimmed rt (get_prop g ''group_name'') of
          Inl e \<Rightarrow> Inl e
        | Inr groupName \<Rightarrow>
            (case to_trimmed rt (get_prop g ''content'') of
               Inl e \<Rightarrow> Inl e
             | Inr content \<Rightarrow>
                 if content = [] then groups_loop rt gs groupBlocks
                 else if groupName \<noteq> []
                   then groups_loop rt gs
                          (groupBlocks @ [''### '' @ groupName @ ''\<newline>'' @ content])
                   else groups_loop rt gs (groupBlocks @ [content])))"

fun sections_loop :: "js_runtime \<Rightarrow> json list \<Rightarrow> string list \<Rightarrow> error + string list" where
  "sections_loop rt [] chunks = Inr chunks"
| "sections_loop rt (block # rest) chunks =
     (if \<not> object_like block then sections_loop rt rest chunks
      else
        case to_trimmed rt (get_prop block ''section_name'') of
          Inl e \<Rightarrow> Inl e
        | Inr sectionName \<Rightarrow>
            (case groups_loop rt
                    (case get_prop block ''groups'' of Some (JArr gs) \<Rightarrow> gs | _ \<Rightarrow> []) [] of
               Inl e \<Rightarrow> Inl e
             | Inr groupBlocks \<Rightarrow>
                 let body = join ''\<newline>\<newline>'' (filter (\<lambda>s. s \<noteq> []) groupBlocks)
                 in if body = [] then sections_loop rt rest chunks
                    else if sectionName \<noteq> []
                      then sections_loop rt rest
                             (chunks @ [''## '' @ sectionName @ ''\<newline>'' @ body])
                      else sections_loop rt rest (chunks @ [body])))"

definition renderSections :: "js_runtime \<Rightarrow> json option \<Rightarrow> error + string" where
  "renderSections rt sectionInfo =
     (case sectionInfo of
        Some (JArr secs) \<Rightarrow>
          (case sections_loop rt secs [] of
             Inl e \<Rightarrow> Inl e
           | Inr chunks \<Rightarrow> Inr (join ''\<newline>\<newline>'' (filter (\<lambda>s. s \<noteq> []) chunks)))
      | _ \<Rightarrow> Inr [])"

section \<open>Record Structurer: \<^verbatim>\<open>structureActivity\<close>\<close>

record PackageSummary =
  package_id :: "json option"
  package_name :: "string option"
  sections_markdown :: "string option"

record StructuredOffer =
  source_path :: string
  activity_id :: "json option"
  title :: "string option"
  subtitle :: "string option"
  what_we_love :: "string option"
  location :: "json option"
  address :: "json option"
  category :: "string option"
  category_detail :: "json option"
  description_markdown :: "string option"
  packages :: "PackageSummary list"
  images :: "string list"
  image_details :: "ImageDetail list"
  city :: "string option"
  country :: "string option"
  status :: "json option"
  raw :: json

fun packages_loop ::
  "js_runtime \<Rightarrow> json list \<Rightarrow> PackageSummary list \<Rightarrow> error + PackageSummary list" where
  "packages_loop rt [] pkgs = Inr pkgs"
| "packages_loop rt (item # items) pkgs =
     (if \<not> object_like item then packages_loop rt items pkgs
      else
        case renderSections rt (get_prop item ''section_info'') of
          Inl e \<Rightarrow> Inl e
        | Inr markdown \<Rightarrow>
            packages_loop rt items
              (pkgs @ [\<lparr> package_id = get_prop item ''package_id'',
                         package_name = str_field item ''package_name'',
                         sections_markdown = Some markdown \<rparr>]))"

text \<open>\<^verbatim>\<open>xs.filter(Boolean)\<close> on a list of possibly undefined strings.\<close>

fun filter_Boolean :: "string option list \<Rightarrow> string list" where
  "filter_Boolean [] = []"
| "filter_Boolean (None # xs) = filter_Boolean xs"
| "filter_Boolean (Some s # xs) = (if s = [] then filter_Boolean xs else s # filter_Boolean xs)"

text \<open>
  \<^verbatim>\<open>structureActivity\<close> throws when a section name, a group name or a content cannot
  be converted to a string; \<^verbatim>\<open>loadOffers\<close> then skips the file.
\<close>

definition structureActivity :: "js_runtime \<Rightarrow> json \<Rightarrow> string \<Rightarrow> error + StructuredOffer" where
  "structureActivity rt activity sourcePath =
     (case packages_loop rt
             (case get_prop activity ''package_list'' of Some (JArr ps) \<Rightarrow> ps | _ \<Rightarrow> []) [] of
        Inl e \<Rightarrow> Inl e
      | Inr pkgs \<Rightarrow>
          let cityInfo = (case get_prop activity ''city_info'' of Some (JArr cs) \<Rightarrow> cs | _ \<Rightarrow> []);
              primaryCity =
                (case cityInfo of [] \<Rightarrow> JObj [] | c # cs \<Rightarrow> if truthy c then c else JObj []);
              categoryInfo =
                (case get_prop activity ''category_info'' of
                   None \<Rightarrow> JObj []
                 | Some c \<Rightarrow> if truthy c then c else JObj []);
              st = js_or (get_prop activity ''status'')
                     (js_or (get_prop activity ''curation_status'')
                        (js_or (get_prop categoryInfo ''curation_status'') (Some JNull)));
              imageDetails = extractImageDetails (get_prop activity ''images'')
          in case renderSections rt (get_prop activity ''section_info'') of
               Inl e \<Rightarrow> Inl e
             | Inr markdown \<Rightarrow>
                 Inr \<lparr> source_path = sourcePath,
                       activity_id = get_prop activity ''activity_id'',
                       title = str_field activity ''title'',
                       subtitle = str_field activity ''subtitle'',
                       what_we_love = str_field activity ''what_we_love'',
                       location = get_prop activity ''location'',
                       address = get_prop activity ''address_desc_multilang'',
                       category = str_field categoryInfo ''sub_category_name'',
                       category_detail = Some categoryInfo,
                       description_markdown = Some markdown,
                       packages = pkgs,
                       images = filter_Boolean (map url imageDetails),
                       image_details = imageDetails,
                       city = str_field primaryCity ''city_name'',
                       country = str_field primaryCity ''country_name'',
                       status = st,
                       raw = activity \<rparr>)"

text \<open>
  The candidate sequence \<^verbatim>\<open>details\<close> of \<^verbatim>\<open>extractImageDetails\<close> before
  de-duplication, as read from the \<^verbatim>\<open>images\<close> field of an activity.
\<close>

definition candidate_details :: "json \<Rightarrow> ImageDetail list" where
  "candidate_details activity =
     (case get_prop activity ''images'' of Some (JArr xs) \<Rightarrow> images_loop xs [] | _ \<Rightarrow> [])"

section \<open>The Description Renderer as the specification words it\<close>

text \<open>
  The section tree of the specification, with the optional fields of the interfaces
  \<^verbatim>\<open>SectionInfo\<close> and \<^verbatim>\<open>SectionGroup\<close>: a sequence of sections, each with a name and
  a sequence of groups, each group with a name and a free text content.
\<close>

record SectionGroup =
  group_name :: "string option"
  content :: "string option"

record SectionInfo =
  section_name :: "string option"
  groups :: "SectionGroup list option"

text \<open>An absent name or content is empty; an absent group sequence has no group.\<close>

definition text_of :: "string option \<Rightarrow> string" where
  "text_of s = (case s of None \<Rightarrow> [] | Some t \<Rightarrow> t)"

definition groups_of :: "SectionInfo \<Rightarrow> SectionGroup list" where
  "groups_of s = (case groups s of None \<Rightarrow> [] | Some gs \<Rightarrow> gs)"

text \<open>
  The rendering in the words of the specification, on the names and contents as they
  are given: groups with empty content are dropped, a named group gets a level-3
  heading, the surviving groups of a section are joined with a blank line, sections
  with an empty body are dropped, a named section gets a level-2 heading, and the
  surviving sections are joined with a blank line.
\<close>

definition spec_group_block :: "SectionGroup \<Rightarrow> string" where
  "spec_group_block g =
     (if text_of (group_name g) \<noteq> []
      then ''### '' @ text_of (group_name g) @ ''\<newline>'' @ text_of (content g)
      else text_of (content g))"

definition spec_section_body :: "SectionInfo \<Rightarrow> string" where
  "spec_section_body s =
     join ''\<newline>\<newline>''
       (map spec_group_block (filter (\<lambda>g. text_of (content g) \<noteq> []) (groups_of s)))"

definition spec_section_block :: "SectionInfo \<Rightarrow> string" where
  "spec_section_block s =
     (if text_of (section_name s) \<noteq> []
      then ''## '' @ text_of (section_name s) @ ''\<newline>'' @ spec_section_body s
      else spec_section_body s)"

definition spec_renderSections :: "SectionInfo list \<Rightarrow> string" where
  "spec_renderSections secs =
     join ''\<newline>\<newline>'' (map spec_section_block (filter (\<lambda>s. spec_section_body s \<noteq> []) secs))"

text \<open>The raw value \<^verbatim>\<open>renderSections\<close> receives for a section tree.\<close>

definition string_member :: "string \<Rightarrow> string option \<Rightarrow> (string \<times> json) list" where
  "string_member k v = (case v of None \<Rightarrow> [] | Some s \<Rightarrow> [(k, JStr s)])"

definition group_json :: "SectionGroup \<Rightarrow> json" where
  "group_json g =
     JObj (string_member ''group_name'' (group_name g) @ string_member ''content'' (content g))"

definition section_json :: "SectionInfo \<Rightarrow> json" where
  "section_json s =
     JObj (string_member ''section_name'' (section_name s) @
           (case groups s of None \<Rightarrow> [] | Some gs \<Rightarrow> [(''groups'', JArr (map group_json gs))]))"

definition sections_json :: "SectionInfo list \<Rightarrow> json" where
  "sections_json secs = JArr (map section_json secs)"

text \<open>
  The section tree with every name and content trimmed of surrounding white space, and
  the trees that are trimmed already.
\<close>

definition trim_group :: "SectionGroup \<Rightarrow> SectionGroup" where
  "trim_group g =
     \<lparr> group_name = Some (trim (text_of (group_name g))),
       content = Some (trim (text_of (content g))) \<rparr>"

definition trim_section :: "SectionInfo \<Rightarrow> SectionInfo" where
  "trim_section s =
     \<lparr> section_name = Some (trim (text_of (section_name s))),
       groups = Some (map trim_group (groups_of s)) \<rparr>"

definition trimmed_group :: "SectionGroup \<Rightarrow> bool" where
  "trimmed_group g \<longleftrightarrow>
     trim (text_of (group_name g)) = text_of (group_name g) \<and>
     trim (text_of (content g)) = text_of (content g)"

definition trimmed_section :: "SectionInfo \<Rightarrow> bool" where
  "trimmed_section s \<longleftrightarrow>
     trim (text_of (section_name s)) = text_of (section_name s) \<and>
     list_all trimmed_group (groups_of s)"

section \<open>Prompt Builder: \<^verbatim>\<open>summarisePackages\<close>, \<^verbatim>\<open>buildOfferPrompt\<close> and the request\<close>

definition MAX_IMAGES_TO_REVIEW :: nat where
  "MAX_IMAGES_TO_REVIEW = 8"

text \<open>\<^verbatim>\<open>s || d\<close> on a possibly undefined string, and \<^verbatim>\<open>v ?? d\<close> inside a template.\<close>

definition str_or :: "string option \<Rightarrow> string \<Rightarrow> string" where
  "str_or s d = (case s of None \<Rightarrow> d | Some t \<Rightarrow> if t = [] then d else t)"

definition nullish_or :: "js_runtime \<Rightarrow> json option \<Rightarrow> string \<Rightarrow> error + string" where
  "nullish_or rt v d = (case v of None \<Rightarrow> Inr d | Some JNull \<Rightarrow> Inr d | Some x \<Rightarrow> js_String rt x)"

fun package_lines :: "js_runtime \<Rightarrow> PackageSummary list \<Rightarrow> nat \<Rightarrow> string list \<Rightarrow> string list" where
  "package_lines rt [] index lines = lines"
| "package_lines rt (pkg # pkgs) index lines =
     (let name = str_or (package_name pkg)
                   (''Package '' @ Number_toString rt (Finite (of_nat (index + 1))));
          details = str_or (sections_markdown pkg) ''No details supplied.''
      in package_lines rt pkgs (index + 1)
           (lines @ [''Package: '' @ name @ ''\<newline>'' @ details]))"

definition summarisePackages :: "js_runtime \<Rightarrow> PackageSummary list \<Rightarrow> string" where
  "summarisePackages rt pkgs =
     (if pkgs = [] then ''No packages available.''
      else join ''\<newline>\<newline>'' (package_lines rt pkgs 0 []))"

fun image_lines :: "js_runtime \<Rightarrow> ImageDetail list \<Rightarrow> nat \<Rightarrow> string list \<Rightarrow> string list" where
  "image_lines rt [] index lines = lines"
| "image_lines rt (img # imgs) index lines =
     (let altText = str_or (Some (trim (str_or (alt img) []))) ''N/A'';
          description0 = trim (str_or (description img) []);
          description1 = (if length description0 > 120 then take 117 description0 @ ''...''
                          else description0);
          displayDescription = str_or (Some description1) ''N/A'';
          ty = str_or (type img) ''UNKNOWN'';
          u = str_or (url img) ''N/A''
      in image_lines rt imgs (index + 1)
           (lines @ [''['' @ Number_toString rt (Finite (of_nat (index + 1))) @ ''] type='' @ ty
                     @ '' alt='' @ altText @ '' desc='' @ displayDescription @ '' url='' @ u]))"

text \<open>
  The template literals of \<^verbatim>\<open>buildOfferPrompt\<close> convert the identifier, the location
  and the address of the offer to strings, and throw when one of them cannot be
  converted.
\<close>

definition buildOfferPrompt :: "js_runtime \<Rightarrow> StructuredOffer \<Rightarrow> error + string" where
  "buildOfferPrompt rt offer =
     (case nullish_or rt (activity_id offer) ''N/A'' of
        Inl e \<Rightarrow> Inl e
      | Inr idText \<Rightarrow>
     (case nullish_or rt (location offer) ''N/A'' of
        Inl e \<Rightarrow> Inl e
      | Inr locationText \<Rightarrow>
     (case nullish_or rt (address offer) ''N/A'' of
        Inl e \<Rightarrow> Inl e
      | Inr addressText \<Rightarrow>
          let lines0 =
                [''Activity ID: '' @ idText,
                 ''Title: '' @ str_or (title offer) ''N/A'',
                 ''Subtitle: '' @ str_or (subtitle offer) ''N/A'',
                 ''What we love: '' @ str_or (what_we_love offer) ''N/A'',
                 ''Location (lat,long): '' @ locationText,
                 ''Address: '' @ addressText,
                 ''City: '' @ str_or (city offer) ''N/A'',
                 ''Country: '' @ str_or (country offer) ''N/A'',
                 ''Current category: '' @ str_or (category offer) ''N/A'',
                 [],
                 ''Offer description markdown:'',
                 str_or (description_markdown offer) ''No description supplied.'',
                 [],
                 ''Packages:'',
                 summarisePackages rt (packages offer),
                 [],
                 ''Images provided (max '' @ Number_toString rt (Finite (of_nat MAX_IMAGES_TO_REVIEW))
                   @ '' considered):''];
              imageDetails = take MAX_IMAGES_TO_REVIEW (image_details offer);
              lines1 =
                (if imageDetails = [] then lines0 @ [''No images available.'']
                 else image_lines rt imageDetails 0
                        (lines0 @
                           [''Image metadata includes Klook's image_type to help avoid stylised banners.'',
                            ''Always reference these numbers when returning hero_image_index and use the exact URL shown.'']))
          in Inr (join ''\<newline>'' lines1))))"

text \<open>
  What \<^verbatim>\<open>gradeOffer\<close> sends to \<^verbatim>\<open>client.responses.create\<close>: the prompt, the attached
  image URLs and the metadata. The model name, the system prompt, the reasoning effort
  and the token budget are constants of the script and are left out. The metadata
  convert the identifier of the offer to a string once more, inside the \<^verbatim>\<open>try\<close> block.
\<close>

record Request =
  input_text :: string
  input_images :: "string list"
  metadata_activity_id :: string
  metadata_activity_title :: string
  metadata_activity_url :: string
  metadata_activity_category :: string

definition imagePayload :: "StructuredOffer \<Rightarrow> string list" where
  "imagePayload offer =
     filter_Boolean (map url (take MAX_IMAGES_TO_REVIEW (image_details offer)))"

definition request_of :: "js_runtime \<Rightarrow> StructuredOffer \<Rightarrow> string \<Rightarrow> error + Request" where
  "request_of rt offer prompt =
     (case nullish_or rt (activity_id offer) [] of
        Inl e \<Rightarrow> Inl e
      | Inr idText \<Rightarrow>
          Inr \<lparr> input_text = prompt,
                input_images = imagePayload offer,
                metadata_activity_id = idText,
                metadata_activity_title = str_or (title offer) [],
                metadata_activity_url = ''https://www.klook.com/en-AU/activity/'' @ idText,
                metadata_activity_category = str_or (category offer) [] \<rparr>)"

text \<open>The request of an offer, when the prompt and the metadata can be built.\<close>

definition build_request :: "js_runtime \<Rightarrow> StructuredOffer \<Rightarrow> error + Request" where
  "build_request rt offer =
     (case buildOfferPrompt rt offer of
        Inl e \<Rightarrow> Inl e
      | Inr prompt \<Rightarrow> request_of rt offer prompt)"

section \<open>Response parsing: \<^verbatim>\<open>collectResponseText\<close>, \<^verbatim>\<open>parseJsonResponse\<close>, \<^verbatim>\<open>normaliseStringList\<close>\<close>

record ResponseContent =
  content_type :: "string option"
  content_text :: "json option"

record Response =
  resp_id :: "json option"
  resp_output :: "ResponseContent list list"

text \<open>The reply of the grading service: the call throws, or it returns a response.\<close>

datatype service_reply = CallFailed json | Replied Response

fun content_loop :: "ResponseContent list \<Rightarrow> string list \<Rightarrow> string list" where
  "content_loop [] chunks = chunks"
| "content_loop (c # cs) chunks =
     (case content_text c of
        Some (JStr t) \<Rightarrow>
          if content_type c = Some ''output_text'' then content_loop cs (chunks @ [t])
          else content_loop cs chunks
      | _ \<Rightarrow> content_loop cs chunks)"

fun output_loop :: "ResponseContent list list \<Rightarrow> string list \<Rightarrow> string list" where
  "output_loop [] chunks = chunks"
| "output_loop (item # items) chunks = output_loop items (content_loop item chunks)"

definition collectResponseText :: "Response \<Rightarrow> string" where
  "collectResponseText response = trim (concat (output_loop (resp_output response) []))"

text \<open>
  \<^verbatim>\<open>text.match(/\{[\s\S]*\}/)\<close>: the match starts at the first opening brace and, the
  star being greedy, ends at the last closing brace after it; there is none when no
  closing brace follows the first opening brace.
\<close>

definition match_braces :: "string \<Rightarrow> string option" where
  "match_braces text =
     (case dropWhile (\<lambda>c. c \<noteq> CHR ''{'') text of
        [] \<Rightarrow> None
      | c # rest \<Rightarrow>
          if CHR ''}'' \<in> set rest
          then Some (c # rev (dropWhile (\<lambda>c. c \<noteq> CHR ''}'') (rev rest)))
          else None)"

definition parse_failure :: "string \<Rightarrow> json" where
  "parse_failure text =
     JObj [(''score'', JNull), (''reason'', JStr (''Failed to parse JSON: '' @ text))]"

definition parseJsonResponse :: "js_runtime \<Rightarrow> string \<Rightarrow> json" where
  "parseJsonResponse rt text =
     (if text = [] then JObj [(''score'', JNull), (''reason'', JStr ''Empty response from model.'')]
      else
        case JSON_parse rt text of
          Some v \<Rightarrow> v
        | None \<Rightarrow>
            (case match_braces text of
               None \<Rightarrow> parse_failure text
             | Some m \<Rightarrow>
                 (case JSON_parse rt m of
                    Some v \<Rightarrow> v
                  | None \<Rightarrow> parse_failure text)))"

fun string_items :: "js_runtime \<Rightarrow> json list \<Rightarrow> error + string list" where
  "string_items rt [] = Inr []"
| "string_items rt (item # items) =
     (case (if item = JNull then Inr [] else js_String rt item) of
        Inl e \<Rightarrow> Inl e
      | Inr s \<Rightarrow>
          (case string_items rt items of
             Inl e \<Rightarrow> Inl e
           | Inr rest \<Rightarrow> Inr (if s = [] then rest else s # rest)))"

definition normaliseStringList :: "js_runtime \<Rightarrow> json option \<Rightarrow> error + string list" where
  "normaliseStringList rt v =
     (case v of
        Some (JArr xs) \<Rightarrow> string_items rt xs
      | None \<Rightarrow> Inr []
      | Some JNull \<Rightarrow> Inr []
      | Some x \<Rightarrow>
          if x = JStr [] then Inr []
          else (case js_String rt x of Inl e \<Rightarrow> Inl e | Inr s \<Rightarrow> Inr [s]))"

section \<open>Response Reconciler: the second half of \<^verbatim>\<open>gradeOffer\<close>\<close>

record GradingResult =
  activity_id :: json
  score :: "jsnum option"
  reason :: string
  categories :: "string list"
  target_audiences :: "string list"
  hero_image_index :: "int option"
  hero_image_url :: "string option"
  hero_image_reason :: string
  response_id :: "string option"

definition Math_trunc :: "rat \<Rightarrow> int" where
  "Math_trunc q = (if 0 \<le> q then \<lfloor>q\<rfloor> else \<lceil>q\<rceil>)"

text \<open>
  \<^verbatim>\<open>Number.parseInt(s, 10)\<close>: leading white space is skipped, a sign is read, and the
  longest prefix of decimal digits is the value; \<open>None\<close> is \<^verbatim>\<open>NaN\<close>. The value is
  kept exact: a double that rounds it compares with \<open>1\<close> and with the length of an array
  as the exact value does.
\<close>

definition parseInt10 :: "string \<Rightarrow> int option" where
  "parseInt10 s =
     (let s1 = dropWhile is_space s;
          negative = (s1 \<noteq> [] \<and> hd s1 = CHR ''-'');
          s2 = (if s1 \<noteq> [] \<and> (hd s1 = CHR ''-'' \<or> hd s1 = CHR ''+'') then tl s1 else s1);
          ds = takeWhile is_digit s2
      in if ds = [] then None
         else Some (if negative then - int (digits_value ds) else int (digits_value ds)))"

definition coerce_index :: "json option \<Rightarrow> int option" where
  "coerce_index heroImageIndexRaw =
     (case heroImageIndexRaw of
        Some (JNum (Finite q)) \<Rightarrow> Some (Math_trunc q)
      | Some (JStr s) \<Rightarrow> if trim s \<noteq> [] then parseInt10 (trim s) else None
      | _ \<Rightarrow> None)"

definition initial_hero_url :: "js_runtime \<Rightarrow> json option \<Rightarrow> error + string option" where
  "initial_hero_url rt v =
     (case v of
        None \<Rightarrow> Inr None
      | Some x \<Rightarrow>
          if truthy x
          then (case js_String rt x of
                  Inl e \<Rightarrow> Inl e
                | Inr s \<Rightarrow> Inr (if trim s = [] then None else Some (trim s)))
          else Inr None)"

definition startsWith :: "string \<Rightarrow> string \<Rightarrow> bool" where
  "startsWith s p = (take (length p) s = p)"

fun findIndex :: "('a \<Rightarrow> bool) \<Rightarrow> 'a list \<Rightarrow> nat option" where
  "findIndex P [] = None"
| "findIndex P (x # xs) =
     (if P x then Some 0 else (case findIndex P xs of None \<Rightarrow> None | Some k \<Rightarrow> Some (Suc k)))"

text \<open>\<^verbatim>\<open>xs[i]?.url\<close> for an integer \<open>i\<close>: undefined outside the array.\<close>

definition url_at :: "ImageDetail list \<Rightarrow> int \<Rightarrow> string option" where
  "url_at xs i = (if 0 \<le> i \<and> i < int (length xs) then url (xs ! nat i) else None)"

definition reconcile_hero ::
  "ImageDetail list \<Rightarrow> int option \<Rightarrow> string option \<Rightarrow> int option \<times> string option" where
  "reconcile_hero candidateImages heroImageIndex0 heroImageUrl0 =
     (let (heroImageIndex1, heroImageUrl1) =
            (case heroImageIndex0 of
               None \<Rightarrow> (None, heroImageUrl0)
             | Some i \<Rightarrow>
                 if 1 \<le> i \<and> i \<le> int (length candidateImages)
                 then (Some i,
                       let candidate = url (candidateImages ! nat (i - 1))
                       in if str_truthy candidate then candidate else heroImageUrl0)
                 else (None, heroImageUrl0));
          heroImageUrl2 =
            (case heroImageUrl1 of
               None \<Rightarrow> None
             | Some u \<Rightarrow> if u \<noteq> [] \<and> startsWith u ''attachment://'' then None else Some u);
          heroImageUrl3 =
            (case heroImageIndex1 of
               None \<Rightarrow> heroImageUrl2
             | Some i \<Rightarrow>
                 if \<not> str_truthy heroImageUrl2
                 then (let candidate = url_at candidateImages (i - 1)
                       in if str_truthy candidate then candidate else heroImageUrl2)
                 else heroImageUrl2);
          heroImageIndex2 =
            (if str_truthy heroImageUrl3 \<and> heroImageIndex1 = None
             then (case findIndex (\<lambda>item. url item = heroImageUrl3) candidateImages of
                     None \<Rightarrow> None
                   | Some idx \<Rightarrow> Some (int idx + 1))
             else heroImageIndex1)
      in (heroImageIndex2, heroImageUrl3))"

text \<open>
  \<^verbatim>\<open>Number(v)\<close> on a possibly undefined JSON value. An array or an object is first
  converted to a string, which can throw.
\<close>

definition js_Number :: "js_runtime \<Rightarrow> json option \<Rightarrow> error + jsnum" where
  "js_Number rt v =
     (case v of
        None \<Rightarrow> Inr NaN
      | Some JNull \<Rightarrow> Inr (Finite 0)
      | Some (JBool b) \<Rightarrow> Inr (Finite (if b then 1 else 0))
      | Some (JNum n) \<Rightarrow> Inr n
      | Some (JStr s) \<Rightarrow> Inr (StringToNumber rt s)
      | Some x \<Rightarrow> (case js_String rt x of Inl e \<Rightarrow> Inl e | Inr s \<Rightarrow> Inr (StringToNumber rt s)))"

text \<open>\<^verbatim>\<open>Math.max(0, n)\<close> and \<^verbatim>\<open>Math.min(5, n)\<close>.\<close>

definition Math_max0 :: "jsnum \<Rightarrow> jsnum" where
  "Math_max0 n =
     (case n of Finite q \<Rightarrow> Finite (max 0 q) | PosInf \<Rightarrow> PosInf | NegInf \<Rightarrow> Finite 0 | NaN \<Rightarrow> NaN)"

definition Math_min5 :: "jsnum \<Rightarrow> jsnum" where
  "Math_min5 n =
     (case n of Finite q \<Rightarrow> Finite (min 5 q) | PosInf \<Rightarrow> Finite 5 | NegInf \<Rightarrow> NegInf | NaN \<Rightarrow> NaN)"

definition normalise_score :: "js_runtime \<Rightarrow> json option \<Rightarrow> error + jsnum option" where
  "normalise_score rt scoreRaw =
     (case js_Number rt scoreRaw of
        Inl e \<Rightarrow> Inl e
      | Inr numericScore \<Rightarrow>
          Inr (if numericScore \<noteq> NaN then Some (Math_min5 (Math_max0 numericScore)) else None))"

definition nullish_json :: "json option \<Rightarrow> json" where
  "nullish_json v = (case v of None \<Rightarrow> JNull | Some x \<Rightarrow> x)"

text \<open>
  The part of \<^verbatim>\<open>gradeOffer\<close> after the \<^verbatim>\<open>try\<close> block. It reads properties of the
  parsed reply and converts values to strings and to a number outside the \<^verbatim>\<open>try\<close>,
  so a reply that parses to \<^verbatim>\<open>null\<close>, or a value that cannot be converted, raises a
  TypeError that nothing in \<^verbatim>\<open>gradeOffer\<close> catches.
\<close>

definition gradeOffer_reconcile ::
  "js_runtime \<Rightarrow> StructuredOffer \<Rightarrow> string option \<Rightarrow> json \<Rightarrow> error + GradingResult" where
  "gradeOffer_reconcile rt offer responseId parsed =
     (if parsed = JNull then Inl TypeError
      else
     (case normaliseStringList rt (get_prop parsed ''categories'') of
        Inl e \<Rightarrow> Inl e
      | Inr cats \<Rightarrow>
     (case normaliseStringList rt (get_prop parsed ''target_audiences'') of
        Inl e \<Rightarrow> Inl e
      | Inr targetAudiences \<Rightarrow>
     (case initial_hero_url rt (get_prop parsed ''hero_image_url'') of
        Inl e \<Rightarrow> Inl e
      | Inr heroImageUrl0 \<Rightarrow>
     (case normalise_score rt (get_prop parsed ''score'') of
        Inl e \<Rightarrow> Inl e
      | Inr sc \<Rightarrow>
          let heroImageIndex0 = coerce_index (get_prop parsed ''hero_image_index'');
              (heroImageIndex, heroImageUrl) =
                reconcile_hero (image_details offer) heroImageIndex0 heroImageUrl0;
              heroImageReason =
                (case get_prop parsed ''hero_image_reason'' of
                   None \<Rightarrow> []
                 | Some JNull \<Rightarrow> []
                 | Some (JStr s) \<Rightarrow> trim s
                 | Some x \<Rightarrow> JSON_stringify rt x);
              reasonValue =
                (case get_prop parsed ''reason'' of
                   None \<Rightarrow> parsed
                 | Some JNull \<Rightarrow> parsed
                 | Some x \<Rightarrow> x);
              rsn = (case reasonValue of JStr s \<Rightarrow> s | x \<Rightarrow> JSON_stringify rt x)
          in Inr \<lparr> activity_id = nullish_json (StructuredOffer.activity_id offer),
                   score = sc,
                   reason = rsn,
                   categories = cats,
                   target_audiences = targetAudiences,
                   hero_image_index = heroImageIndex,
                   hero_image_url = heroImageUrl,
                   hero_image_reason = heroImageReason,
                   response_id = responseId \<rparr>)))))"

text \<open>The result of \<^verbatim>\<open>gradeOffer\<close> when the \<^verbatim>\<open>try\<close> block throws.\<close>

definition failure_result :: "js_runtime \<Rightarrow> StructuredOffer \<Rightarrow> json \<Rightarrow> GradingResult" where
  "failure_result rt offer details =
     \<lparr> activity_id = nullish_json (StructuredOffer.activity_id offer),
       score = None,
       reason = ''Model call failed: '' @ JSON_stringify rt details,
       categories = [],
       target_audiences = [],
       hero_image_index = None,
       hero_image_url = None,
       hero_image_reason = [],
       response_id = None \<rparr>"

text \<open>
  \<^verbatim>\<open>gradeOffer\<close>: one call of the grading service, given as a function of the request.
  The client is taken as available (a missing credential is outside the grading
  pipeline). The prompt is built before the \<^verbatim>\<open>try\<close> block, so its TypeError leaves
  \<^verbatim>\<open>gradeOffer\<close>; the metadata are built inside, so theirs is caught and reported:
  the details of the failure are \<^verbatim>\<open>error.message\<close>, or the error itself, an object
  without enumerable properties, when the message is empty.
\<close>

definition gradeOffer ::
  "js_runtime \<Rightarrow> (Request \<Rightarrow> service_reply) \<Rightarrow> StructuredOffer \<Rightarrow> error + GradingResult" where
  "gradeOffer rt service offer =
     (case buildOfferPrompt rt offer of
        Inl e \<Rightarrow> Inl e
      | Inr prompt \<Rightarrow>
          (case request_of rt offer prompt of
             Inl e \<Rightarrow>
               Inr (failure_result rt offer
                      (if TypeError_message rt = [] then JObj [] else JStr (TypeError_message rt)))
           | Inr request \<Rightarrow>
               (case service request of
                  CallFailed details \<Rightarrow> Inr (failure_result rt offer details)
                | Replied response \<Rightarrow>
                    gradeOffer_reconcile rt offer
                      (case resp_id response of Some (JStr s) \<Rightarrow> Some s | _ \<Rightarrow> None)
                      (parseJsonResponse rt (collectResponseText response)))))"

section \<open>Grading Orchestrator: \<^verbatim>\<open>gradeOffers\<close> and \<^verbatim>\<open>main\<close>\<close>

text \<open>\<^verbatim>\<open>String(a.activity_id ?? '')\<close>\<close>

definition result_id :: "js_runtime \<Rightarrow> GradingResult \<Rightarrow> error + string" where
  "result_id rt a = (case activity_id a of JNull \<Rightarrow> Inr [] | v \<Rightarrow> js_String rt v)"

definition compare_results ::
  "js_runtime \<Rightarrow> GradingResult \<Rightarrow> GradingResult \<Rightarrow> error + int" where
  "compare_results rt a b =
     (case result_id rt a of
        Inl e \<Rightarrow> Inl e
      | Inr idA \<Rightarrow>
          (case result_id rt b of
             Inl e \<Rightarrow> Inl e
           | Inr idB \<Rightarrow>
               Inr (if idA = idB then localeCompare rt (reason a) (reason b)
                    else localeCompare rt idA idB)))"

text \<open>
  \<^verbatim>\<open>Array.prototype.sort\<close> with a comparison function is a stable sort: elements that
  compare equal keep their order. It is modelled by insertion from the right. A
  comparison that throws ends the sort with its exception; an array of two elements or
  more has each of its elements compared at least once.
\<close>

fun insert_sorted :: "('a \<Rightarrow> 'a \<Rightarrow> error + int) \<Rightarrow> 'a \<Rightarrow> 'a list \<Rightarrow> error + 'a list" where
  "insert_sorted cmp x [] = Inr [x]"
| "insert_sorted cmp x (y # ys) =
     (case cmp x y of
        Inl e \<Rightarrow> Inl e
      | Inr c \<Rightarrow>
          if c \<le> 0 then Inr (x # y # ys)
          else (case insert_sorted cmp x ys of Inl e \<Rightarrow> Inl e | Inr zs \<Rightarrow> Inr (y # zs)))"

fun Array_sort :: "('a \<Rightarrow> 'a \<Rightarrow> error + int) \<Rightarrow> 'a list \<Rightarrow> error + 'a list" where
  "Array_sort cmp [] = Inr []"
| "Array_sort cmp (x # xs) =
     (case Array_sort cmp xs of Inl e \<Rightarrow> Inl e | Inr ys \<Rightarrow> insert_sorted cmp x ys)"


text \<open>
  The worker pool of \<^verbatim>\<open>gradeOffers\<close>. \<^verbatim>\<open>Array.from\<close> starts the workers one after the
  other; each shifts an offer from the queue and calls \<^verbatim>\<open>gradeOffer\<close>, so the first
  \<open>limiter\<close> offers are in flight. When \<^verbatim>\<open>gradeOffer\<close> settles, its worker pushes the
  result and shifts the next offer, or ends when the queue is empty; a TypeError ends
  the worker and rejects \<^verbatim>\<open>Promise.all\<close>, while the other workers go on. Which
  \<^verbatim>\<open>gradeOffer\<close> in flight settles next is not determined by the script: it is given by
  a schedule, a list of positions (taken modulo the number in flight). A schedule that
  ends with offers in flight stands for calls that never settle. A \<^verbatim>\<open>gradeOffer\<close> that
  throws before it calls the service settles at once in the script; the schedules that
  settle it later add runs the script does not have, and take none away. \<open>graded\<close>
  logs the offers handed to \<^verbatim>\<open>gradeOffer\<close>.
\<close>

record Pool =
  queue :: "StructuredOffer list"
  in_flight :: "StructuredOffer list"
  results :: "GradingResult list"
  graded :: "StructuredOffer list"
  rejection :: "error option"

definition start_workers :: "nat \<Rightarrow> StructuredOffer list \<Rightarrow> Pool" where
  "start_workers limiter offers =
     \<lparr> queue = drop limiter offers,
       in_flight = take limiter offers,
       results = [],
       graded = take limiter offers,
       rejection = None \<rparr>"

definition settle ::
  "js_runtime \<Rightarrow> (Request \<Rightarrow> service_reply) \<Rightarrow> nat \<Rightarrow> Pool \<Rightarrow> Pool" where
  "settle rt service k p =
     (if in_flight p = [] then p
      else
        let i = k mod length (in_flight p);
            offer = in_flight p ! i;
            others = take i (in_flight p) @ drop (Suc i) (in_flight p)
        in case gradeOffer rt service offer of
             Inl e \<Rightarrow>
               p\<lparr> in_flight := others,
                  rejection := (case rejection p of None \<Rightarrow> Some e | Some e0 \<Rightarrow> Some e0) \<rparr>
           | Inr result \<Rightarrow>
               (case queue p of
                  [] \<Rightarrow> p\<lparr> in_flight := others, results := results p @ [result] \<rparr>
                | next # rest \<Rightarrow>
                    p\<lparr> queue := rest,
                       in_flight := (in_flight p)[i := next],
                       results := results p @ [result],
                       graded := graded p @ [next] \<rparr>))"

datatype 'a promise = Pending | Rejected error | Resolved 'a

text \<open>\<^verbatim>\<open>Math.max(1, Number.isFinite(concurrency) ? Math.trunc(concurrency) : 1)\<close>\<close>

definition limiter_number :: "jsnum \<Rightarrow> int" where
  "limiter_number concurrency =
     max 1 (case concurrency of Finite q \<Rightarrow> Math_trunc q | _ \<Rightarrow> 1)"

definition limiter_of :: "jsnum \<Rightarrow> nat" where
  "limiter_of concurrency = nat (limiter_number concurrency)"

text \<open>
  \<^verbatim>\<open>gradeOffers\<close> returns its promise and the offers for which the service was called:
  those handed to \<^verbatim>\<open>gradeOffer\<close> whose request could be built. \<^verbatim>\<open>Array.from\<close> throws a
  RangeError, before any worker starts, for a length that is not an array length.
\<close>

definition gradeOffers ::
  "js_runtime \<Rightarrow> (Request \<Rightarrow> service_reply) \<Rightarrow> nat list \<Rightarrow> StructuredOffer list \<Rightarrow> jsnum
     \<Rightarrow> GradingResult list promise \<times> StructuredOffer list" where
  "gradeOffers rt service schedule offers concurrency =
     (if offers = [] then (Resolved [], [])
      else if 2 ^ 32 \<le> limiter_number concurrency then (Rejected RangeError, [])
      else
        let p = fold (settle rt service) schedule (start_workers (limiter_of concurrency) offers)
        in (case rejection p of
              Some e \<Rightarrow> Rejected e
            | None \<Rightarrow>
                if in_flight p = []
                then (case Array_sort (compare_results rt) (results p) of
                        Inl e \<Rightarrow> Rejected e
                      | Inr sorted_results \<Rightarrow> Resolved sorted_results)
                else Pending,
            filter (\<lambda>offer. \<not> isl (build_request rt offer)) (graded p)))"

text \<open>
  \<^verbatim>\<open>toUpperCase\<close> on the letters a to z. The characters it leaves alone here are never
  mapped by ECMAScript to a letter of \<^verbatim>\<open>CURATED\<close>, and the comparison with that word is
  the only use the script makes of the result.
\<close>

definition toUpperCase :: "string \<Rightarrow> string" where
  "toUpperCase s =
     map (\<lambda>c. if 97 \<le> (of_char c :: nat) \<and> (of_char c :: nat) \<le> 122
               then char_of (of_char c - 32 :: nat) else c) s"

text \<open>\<^verbatim>\<open>String(offer.status || '')\<close>\<close>

definition status_label :: "js_runtime \<Rightarrow> StructuredOffer \<Rightarrow> error + string" where
  "status_label rt offer =
     (case status offer of
        None \<Rightarrow> Inr []
      | Some v \<Rightarrow> if truthy v then js_String rt v else Inr [])"

text \<open>
  The filter of \<^verbatim>\<open>main\<close>; it throws when the status of an offer cannot be converted to
  a string.
\<close>

fun offersToGrade :: "js_runtime \<Rightarrow> StructuredOffer list \<Rightarrow> error + StructuredOffer list" where
  "offersToGrade rt [] = Inr []"
| "offersToGrade rt (offer # offers) =
     (case status_label rt offer of
        Inl e \<Rightarrow> Inl e
      | Inr label \<Rightarrow>
          (case offersToGrade rt offers of
             Inl e \<Rightarrow> Inl e
           | Inr kept \<Rightarrow>
               Inr (if toUpperCase label \<noteq> ''CURATED'' then offer # kept else kept)))"

text \<open>
  \<^verbatim>\<open>main\<close>, from the loaded offers on: the offers for which the service was called,
  the rows handed to \<^verbatim>\<open>writeResultsCsv\<close> (\<open>None\<close> when no file is written), and the
  exception that \<^verbatim>\<open>main\<close> ends with, if any.
\<close>

record Run =
  service_calls :: "StructuredOffer list"
  csv_rows :: "GradingResult list option"
  thrown :: "error option"

definition main ::
  "js_runtime \<Rightarrow> (Request \<Rightarrow> service_reply) \<Rightarrow> nat list \<Rightarrow> jsnum \<Rightarrow> StructuredOffer list \<Rightarrow> Run" where
  "main rt service schedule concurrency offers =
     (case offersToGrade rt offers of
        Inl e \<Rightarrow> \<lparr> service_calls = [], csv_rows = None, thrown = Some e \<rparr>
      | Inr queued \<Rightarrow>
          if queued = [] then \<lparr> service_calls = [], csv_rows = None, thrown = None \<rparr>
          else
            let (outcome, calls) = gradeOffers rt service schedule queued concurrency
            in \<lparr> service_calls = calls,
                 csv_rows = (case outcome of Resolved rs \<Rightarrow> Some rs | _ \<Rightarrow> None),
                 thrown = (case outcome of Rejected e \<Rightarrow> Some e | _ \<Rightarrow> None) \<rparr>)"

text \<open>
  What the theorems on the final order ask of \<^verbatim>\<open>localeCompare\<close>, and what ECMAScript
  requires of it: it is a consistent comparison function, that of a total preorder on
  strings. Different strings may compare equal.
\<close>

definition consistent_comparator :: "(string \<Rightarrow> string \<Rightarrow> int) \<Rightarrow> bool" where
  "consistent_comparator c \<longleftrightarrow>
     (\<forall>a b. c a b < 0 \<longleftrightarrow> 0 < c b a) \<and>
     (\<forall>a b d. c a b \<le> 0 \<and> c b d \<le> 0 \<longrightarrow> c a d \<le> 0)"

text \<open>The invariant of the worker pool, for a grading function \<open>G\<close>.\<close>

definition pool_inv ::
  "(StructuredOffer \<Rightarrow> error + GradingResult) \<Rightarrow> StructuredOffer list \<Rightarrow> Pool \<Rightarrow> bool" where
  "pool_inv G offers p \<longleftrightarrow>
     mset (graded p) + mset (queue p) = mset offers \<and>
     set (in_flight p) \<subseteq> set (graded p) \<and>
     (rejection p = None \<longrightarrow>
        mset (map Inr (results p)) + mset (map G (in_flight p)) + mset (map G (queue p)) =
          mset (map G offers)) \<and>
     (rejection p = None \<and> in_flight p = [] \<longrightarrow> queue p = []) \<and>
     (\<forall>r \<in> set (results p). \<exists>offer \<in> set (graded p). G offer = Inr r) \<and>
     (\<forall>e. rejection p = Some e \<longrightarrow> (\<exists>offer \<in> set (graded p). G offer = Inl e))"

text \<open>Equality of two strings up to the case of the letters A to Z.\<close>

definition lower_char :: "char \<Rightarrow> char" where
  "lower_char c =
     (if 65 \<le> (of_char c :: nat) \<and> (of_char c :: nat) \<le> 90
      then char_of (of_char c + 32 :: nat) else c)"

definition equals_ignoring_case :: "string \<Rightarrow> string \<Rightarrow> bool" where
  "equals_ignoring_case a b \<longleftrightarrow> map lower_char a = map lower_char b"

section \<open>A runtime instance and inputs for the examples\<close>

text \<open>
  Every theorem below holds for every runtime. To evaluate the model on concrete
  inputs, \<open>table_runtime\<close> fixes one: \<^verbatim>\<open>JSON.parse\<close> is given by a finite table of
  texts (every other text is rejected), integral numbers print in decimal,
  \<^verbatim>\<open>JSON.stringify\<close> prints scalars, an unsigned digit string converts to its value,
  strings compare by code units, and the TypeError carries the message of V8. The
  examples only use it on inputs where ECMAScript gives the same result.
\<close>

fun show_nat :: "nat \<Rightarrow> string" where
  "show_nat n =
     (if n < 10 then [char_of (48 + n)] else show_nat (n div 10) @ [char_of (48 + n mod 10)])"

declare show_nat.simps [simp del]

definition show_num :: "jsnum \<Rightarrow> string" where
  "show_num n =
     (case n of
        Finite q \<Rightarrow> (if q < 0 then ''-'' else []) @ show_nat (nat \<lfloor>\<bar>q\<bar>\<rfloor>)
      | PosInf \<Rightarrow> ''Infinity''
      | NegInf \<Rightarrow> ''-Infinity''
      | NaN \<Rightarrow> ''NaN'')"

definition read_num :: "string \<Rightarrow> jsnum" where
  "read_num s =
     (if s \<noteq> [] \<and> list_all is_digit s then Finite (of_nat (digits_value s)) else NaN)"

fun show_scalar :: "json \<Rightarrow> string" where
  "show_scalar JNull = ''null''"
| "show_scalar (JBool b) = (if b then ''true'' else ''false'')"
| "show_scalar (JNum n) = (case n of Finite q \<Rightarrow> show_num n | _ \<Rightarrow> ''null'')"
| "show_scalar (JStr s) = [CHR 0x22] @ s @ [CHR 0x22]"
| "show_scalar (JArr xs) = ''[]''"
| "show_scalar (JObj kvs) = ''{}''"

fun code_unit_compare :: "string \<Rightarrow> string \<Rightarrow> int" where
  "code_unit_compare [] [] = 0"
| "code_unit_compare [] (y # ys) = -1"
| "code_unit_compare (x # xs) [] = 1"
| "code_unit_compare (x # xs) (y # ys) =
     (if x = y then code_unit_compare xs ys
      else if (of_char x :: nat) < of_char y then -1 else 1)"

text \<open>
  A comparison that ignores the soft hyphen (code point 173), as the collation of
  \<^verbatim>\<open>localeCompare\<close> does: different strings compare equal.
\<close>

definition hyphen_blind_compare :: "string \<Rightarrow> string \<Rightarrow> int" where
  "hyphen_blind_compare a b =
     code_unit_compare (filter (\<lambda>c. c \<noteq> CHR 0xAD) a) (filter (\<lambda>c. c \<noteq> CHR 0xAD) b)"

definition table_runtime :: "(string \<times> json) list \<Rightarrow> js_runtime" where
  "table_runtime table =
     \<lparr> JSON_parse = map_of table,
       JSON_stringify = show_scalar,
       Number_toString = show_num,
       StringToNumber = read_num,
       localeCompare = code_unit_compare,
       TypeError_message = ''Cannot convert object to primitive value'' \<rparr>"

text \<open>A raw activity with a repeated, an empty and a nested image URL.\<close>

definition example_activity :: json where
  "example_activity =
     JObj [(''activity_id'', JNum (Finite 101)),
           (''images'', JArr
             [JObj [(''image_url_host'', JStr ''https://img/a.jpg''),
                    (''images'', JArr [JObj [(''image_url_host'', JStr ''https://img/b.jpg'')],
                                       JObj [(''image_url_host'', JStr ''https://img/a.jpg'')]])],
              JObj [(''image_url_host'', JStr [])],
              JObj [(''image_url_host'', JStr ''https://img/b.jpg'')]])]"

text \<open>A section tree with an empty group, an empty section and a stray entry.\<close>

definition example_sections :: json where
  "example_sections = JArr
     [JObj [(''section_name'', JStr '' Highlights ''),
            (''groups'', JArr [JObj [(''group_name'', JStr ''Views''), (''content'', JStr ''Harbour at dusk'')],
                               JObj [(''group_name'', JStr ''Empty''), (''content'', JStr ''  '')],
                               JNull,
                               JObj [(''content'', JStr ''Bring a hat'')]])],
      JObj [(''section_name'', JStr ''Nothing here''), (''groups'', JArr [JObj [(''content'', JStr [])]])],
      JStr ''stray'',
      JObj [(''groups'', JArr [JObj [(''content'', JStr ''Meet at pier 4'')]])]]"

text \<open>
  Two section trees: one whose names and contents carry surrounding white space, with
  a group whose content is white space only, and one without surrounding white space.
\<close>

definition padded_sections :: "SectionInfo list" where
  "padded_sections =
     [\<lparr> section_name = Some '' Highlights '',
        groups = Some [\<lparr> group_name = Some ''Views'', content = Some '' Harbour at dusk '' \<rparr>,
                       \<lparr> group_name = Some ''Blank'', content = Some ''  '' \<rparr>] \<rparr>]"

definition flat_sections :: "SectionInfo list" where
  "flat_sections =
     [\<lparr> section_name = Some ''Highlights'',
        groups = Some [\<lparr> group_name = Some ''Views'', content = Some ''Harbour at dusk'' \<rparr>,
                       \<lparr> group_name = Some ''Empty'', content = Some [] \<rparr>,
                       \<lparr> group_name = None, content = Some ''Bring a hat'' \<rparr>] \<rparr>,
      \<lparr> section_name = Some ''Nothing here'',
        groups = Some [\<lparr> group_name = None, content = None \<rparr>] \<rparr>,
      \<lparr> section_name = None,
        groups = Some [\<lparr> group_name = None, content = Some ''Meet at pier 4'' \<rparr>] \<rparr>,
      \<lparr> section_name = Some ''No groups'', groups = None \<rparr>]"

text \<open>Offers for the examples: structured from a raw activity with the given image URLs.\<close>

definition offer_of_urls :: "string list \<Rightarrow> StructuredOffer" where
  "offer_of_urls us =
     projr (structureActivity (table_runtime [])
       (JObj [(''activity_id'', JNum (Finite 7)),
              (''images'', JArr (map (\<lambda>u. JObj [(''image_url_host'', JStr u)]) us))])
       ''offers/7.json'')"

definition five_urls :: "string list" where
  "five_urls = [''https://img/1.jpg'', ''https://img/2.jpg'', ''https://img/3.jpg'',
                ''https://img/4.jpg'', ''https://img/5.jpg'']"

definition nine_urls :: "string list" where
  "nine_urls = [''https://img/1.jpg'', ''https://img/2.jpg'', ''https://img/3.jpg'',
                ''https://img/4.jpg'', ''https://img/5.jpg'', ''https://img/6.jpg'',
                ''https://img/7.jpg'', ''https://img/8.jpg'', ''https://img/9.jpg'']"

text \<open>Two replies of the grading service that carry no JSON.\<close>

definition unparsable_service :: "Request \<Rightarrow> service_reply" where
  "unparsable_service req =
     Replied \<lparr> resp_id = Some (JStr ''resp_42''),
               resp_output = [[\<lparr> content_type = Some ''output_text'',
                                  content_text = Some (JStr ''Sorry, I cannot grade this offer.'') \<rparr>]] \<rparr>"

definition silent_service :: "Request \<Rightarrow> service_reply" where
  "silent_service req = Replied \<lparr> resp_id = Some (JStr ''resp_43''), resp_output = [] \<rparr>"

text \<open>Offers for the examples, with an identifier and a status.\<close>

definition offer_with_status :: "json \<Rightarrow> json \<Rightarrow> string list \<Rightarrow> StructuredOffer" where
  "offer_with_status aid st us =
     projr (structureActivity (table_runtime [])
       (JObj [(''activity_id'', aid), (''status'', st),
              (''images'', JArr (map (\<lambda>u. JObj [(''image_url_host'', JStr u)]) us))])
       ''offers/example.json'')"

text \<open>A service that returns no output text and names the response after the first image.\<close>

definition mute_service :: "Request \<Rightarrow> service_reply" where
  "mute_service req =
     Replied \<lparr> resp_id = Some (JStr (''resp_'' @ concat (take 1 (input_images req)))),
               resp_output = [] \<rparr>"

section \<open>Properties of the Image Resolver\<close>

lemma unique_loop_acc: "unique_loop ds seen acc = acc @ unique_loop ds seen []"
proof (induction ds arbitrary: seen acc)
  case Nil
  show ?case by simp
next
  case (Cons d ds)
  show ?case
  proof (cases "url d")
    case None
    then show ?thesis using Cons.IH [of seen acc] by simp
  next
    case (Some u)
    show ?thesis
    proof (cases "u = [] \<or> u \<in> seen")
      case True
      then show ?thesis using Some Cons.IH [of seen acc] by simp
    next
      case False
      then show ?thesis
        using Some Cons.IH [of "insert u seen" "acc @ [d]"] Cons.IH [of "insert u seen" "[d]"]
        by simp
    qed
  qed
qed

lemma unique_loop_Cons:
  "unique_loop (d # ds) seen [] =
     (case url d of
        None \<Rightarrow> unique_loop ds seen []
      | Some u \<Rightarrow> if u = [] \<or> u \<in> seen then unique_loop ds seen []
                  else d # unique_loop ds (insert u seen) [])"
  using unique_loop_acc [of ds _ "[d]"] by (simp split: option.splits)

declare unique_loop.simps(2) [simp del]

lemma unique_loop_urls:
  "d \<in> set (unique_loop ds seen []) \<Longrightarrow>
     d \<in> set ds \<and> (\<exists>u. url d = Some u \<and> u \<noteq> [] \<and> u \<notin> seen)"
proof (induction ds arbitrary: seen)
  case Nil
  then show ?case by simp
next
  case (Cons c ds)
  then show ?case
    by (fastforce simp: unique_loop_Cons split: option.splits if_splits)
qed

lemma unique_loop_distinct: "distinct (map url (unique_loop ds seen []))"
proof (induction ds arbitrary: seen)
  case Nil
  show ?case by simp
next
  case (Cons c ds)
  show ?case
    using Cons.IH unique_loop_urls [of _ ds "insert _ seen"]
    by (fastforce simp: unique_loop_Cons split: option.splits)
qed

lemma unique_loop_complete:
  "c \<in> set ds \<Longrightarrow> url c = Some u \<Longrightarrow> u \<noteq> [] \<Longrightarrow> u \<notin> seen \<Longrightarrow>
     Some u \<in> url ` set (unique_loop ds seen [])"
proof (induction ds arbitrary: seen)
  case Nil
  then show ?case by simp
next
  case (Cons d ds)
  show ?case
  proof (cases "c = d")
    case True
    then show ?thesis using Cons.prems by (simp add: unique_loop_Cons)
  next
    case False
    then have c: "c \<in> set ds" using Cons.prems by simp
    show ?thesis
    proof (cases "url d")
      case None
      then show ?thesis using Cons.IH [OF c Cons.prems(2,3,4)] by (simp add: unique_loop_Cons)
    next
      case (Some v)
      show ?thesis
      proof (cases "v = [] \<or> v \<in> seen")
        case True
        then show ?thesis
          using Some Cons.IH [OF c Cons.prems(2,3,4)] by (simp add: unique_loop_Cons)
      next
        case False
        show ?thesis
        proof (cases "v = u")
          case True
          then show ?thesis using Some False by (simp add: unique_loop_Cons)
        next
          case neq: False
          then have "u \<notin> insert v seen" using Cons.prems(4) by simp
          from Cons.IH [OF c Cons.prems(2,3) this] show ?thesis
            using Some False by (simp add: unique_loop_Cons)
        qed
      qed
    qed
  qed
qed

lemma unique_loop_subseq: "subseq (unique_loop ds seen []) ds"
proof (induction ds arbitrary: seen)
  case Nil
  show ?case by simp
next
  case (Cons d ds)
  show ?case using Cons.IH by (auto simp: unique_loop_Cons split: option.splits)
qed

lemma unique_loop_first:
  "d \<in> set (unique_loop ds seen []) \<Longrightarrow> find (\<lambda>c. url c = url d) ds = Some d"
proof (induction ds arbitrary: seen)
  case Nil
  then show ?case by simp
next
  case (Cons c ds)
  show ?case
  proof (cases "url c")
    case None
    then have "d \<in> set (unique_loop ds seen [])" using Cons.prems by (simp add: unique_loop_Cons)
    moreover from unique_loop_urls [OF this] have "url d \<noteq> None" by auto
    ultimately show ?thesis using None Cons.IH by auto
  next
    case (Some v)
    show ?thesis
    proof (cases "v = [] \<or> v \<in> seen")
      case True
      then have d: "d \<in> set (unique_loop ds seen [])"
        using Some Cons.prems by (simp add: unique_loop_Cons)
      from unique_loop_urls [OF d] True Some have "url c \<noteq> url d" by auto
      then show ?thesis using Cons.IH [OF d] by simp
    next
      case False
      then have "d = c \<or> d \<in> set (unique_loop ds (insert v seen) [])"
        using Some Cons.prems by (simp add: unique_loop_Cons)
      then show ?thesis
      proof
        assume "d = c"
        then show ?thesis by simp
      next
        assume d: "d \<in> set (unique_loop ds (insert v seen) [])"
        from unique_loop_urls [OF d] Some have "url c \<noteq> url d" by auto
        then show ?thesis using Cons.IH [OF d] by simp
      qed
    qed
  qed
qed

lemma filter_Boolean_Some:
  "\<forall>x \<in> set xs. \<exists>u. x = Some u \<and> u \<noteq> [] \<Longrightarrow> map Some (filter_Boolean xs) = xs"
  by (induction xs rule: filter_Boolean.induct) auto

lemma extractImageDetails_urls:
  "d \<in> set (extractImageDetails imgs) \<Longrightarrow> \<exists>u. url d = Some u \<and> u \<noteq> []"
  unfolding extractImageDetails_def
  by (auto split: option.splits json.splits dest: unique_loop_urls)

lemma structureActivity_image_details:
  "structureActivity rt activity p = Inr off \<Longrightarrow>
     image_details off = extractImageDetails (get_prop activity ''images'')"
  by (auto simp: structureActivity_def Let_def split: sum.splits)

lemma structureActivity_images:
  "structureActivity rt activity p = Inr off \<Longrightarrow>
     images off = filter_Boolean (map url (extractImageDetails (get_prop activity ''images'')))"
  by (auto simp: structureActivity_def Let_def split: sum.splits)


text \<open>Every image detail of a structured offer carries a non-empty URL.\<close>

lemma structureActivity_urls:
  "structureActivity rt activity p = Inr off \<Longrightarrow> \<forall>d \<in> set (image_details off). str_truthy (url d)"
  using extractImageDetails_urls [of _ "get_prop activity ''images''"]
  by (fastforce simp: structureActivity_image_details str_truthy_def)

lemma extractImageDetails_candidates:
  "extractImageDetails (get_prop activity ''images'') = unique_loop (candidate_details activity) {} []"
  by (simp add: extractImageDetails_def candidate_details_def split: option.splits json.splits)

text \<open>
  C6. For every raw activity, every offer \<open>off\<close> built by \<open>structureActivity\<close> has
  \<open>images\<close> equal to the URLs of \<open>image_details\<close>, position by position (same
  length, same order, keyed by URL); the URLs are pairwise distinct and none is empty
  or missing; every non-empty URL of the candidate sequence is kept; the details keep
  the order of the candidate sequence, and each kept detail is the first candidate
  carrying its URL. (\<open>structureActivity\<close> builds no offer only when it throws for a
  section text that cannot be converted to a string.)
\<close>

theorem structureActivity_images_dedup:
  assumes built: "structureActivity rt activity p = Inr off"
  shows "map Some (images off) = map url (image_details off)
   \<and> distinct (images off)
   \<and> [] \<notin> set (images off)
   \<and> set (images off) = {u. u \<noteq> [] \<and> Some u \<in> url ` set (candidate_details activity)}
   \<and> subseq (image_details off) (candidate_details activity)
   \<and> (\<forall>d \<in> set (image_details off).
         find (\<lambda>c. url c = url d) (candidate_details activity) = Some d)"
proof -
  let ?cs = "candidate_details activity"
  let ?ds = "unique_loop ?cs {} []"
  let ?us = "filter_Boolean (map url ?ds)"
  have ds: "image_details off = ?ds"
    by (simp add: structureActivity_image_details [OF built] extractImageDetails_candidates)
  have us: "images off = ?us"
    by (simp add: structureActivity_images [OF built] extractImageDetails_candidates)
  have ne: "\<forall>x \<in> set (map url ?ds). \<exists>u. x = Some u \<and> u \<noteq> []"
    using unique_loop_urls [of _ ?cs "{}"] by auto
  have same: "map Some ?us = map url ?ds"
    using filter_Boolean_Some [OF ne] .
  have "distinct (map Some ?us)"
    using unique_loop_distinct [of ?cs "{}"] by (simp only: same)
  then have dist: "distinct ?us"
    by (simp add: distinct_map)
  have nonempty: "[] \<notin> set ?us"
  proof
    assume "[] \<in> set ?us"
    then have "Some [] \<in> set (map Some ?us)" by simp
    then have "Some [] \<in> set (map url ?ds)" by (simp only: same)
    with ne show False by auto
  qed
  have mem: "u \<in> set ?us \<longleftrightarrow> Some u \<in> url ` set ?ds" for u
  proof -
    have "u \<in> set ?us \<longleftrightarrow> Some u \<in> set (map Some ?us)" by auto
    also have "\<dots> \<longleftrightarrow> Some u \<in> set (map url ?ds)" by (simp only: same)
    finally show ?thesis by simp
  qed
  have kept: "set ?us = {u. u \<noteq> [] \<and> Some u \<in> url ` set ?cs}"
  proof (rule set_eqI)
    fix u
    show "u \<in> set ?us \<longleftrightarrow> u \<in> {u. u \<noteq> [] \<and> Some u \<in> url ` set ?cs}"
    proof
      assume "u \<in> set ?us"
      then obtain d where d: "d \<in> set ?ds" "url d = Some u" using mem by force
      from unique_loop_urls [OF d(1)] d(2) have "d \<in> set ?cs" "u \<noteq> []" by auto
      with d(2) show "u \<in> {u. u \<noteq> [] \<and> Some u \<in> url ` set ?cs}" by force
    next
      assume "u \<in> {u. u \<noteq> [] \<and> Some u \<in> url ` set ?cs}"
      then obtain c where c: "c \<in> set ?cs" "url c = Some u" "u \<noteq> []" by force
      from unique_loop_complete [OF c, of "{}"] show "u \<in> set ?us" using mem by simp
    qed
  qed
  have sub: "subseq ?ds ?cs" by (rule unique_loop_subseq)
  have first: "\<forall>d \<in> set ?ds. find (\<lambda>c. url c = url d) ?cs = Some d"
    using unique_loop_first by blast
  show ?thesis
    unfolding ds us using same dist nonempty kept sub first by blast
qed


theorem structureActivity_images_dedup_witness:
  "\<exists>off. structureActivity (table_runtime []) example_activity ''offers/101.json'' = Inr off
     \<and> images off = [''https://img/a.jpg'', ''https://img/b.jpg'']
     \<and> map url (image_details off) = [Some ''https://img/a.jpg'', Some ''https://img/b.jpg'']
     \<and> map source (image_details off) = [Some ''primary'', Some ''nested'']
     \<and> list_all (\<lambda>d. find (\<lambda>c. url c = url d) (candidate_details example_activity) = Some d)
           (image_details off)"
proof -
  obtain off where built:
    "structureActivity (table_runtime []) example_activity ''offers/101.json'' = Inr off"
    by (simp add: structureActivity_def example_activity_def renderSections_def Let_def)
  have off: "off = projr (structureActivity (table_runtime []) example_activity ''offers/101.json'')"
    by (simp add: built)
  have ev: "images (projr (structureActivity (table_runtime []) example_activity ''offers/101.json'')) =
       [''https://img/a.jpg'', ''https://img/b.jpg'']"
    by code_simp
  have src: "map source (image_details (projr (structureActivity (table_runtime []) example_activity ''offers/101.json''))) =
       [Some ''primary'', Some ''nested'']"
    by code_simp
  have "map url (image_details off) = [Some ''https://img/a.jpg'', Some ''https://img/b.jpg'']"
    using structureActivity_images_dedup [OF built] ev by (simp add: off [symmetric])
  moreover have "list_all (\<lambda>d. find (\<lambda>c. url c = url d) (candidate_details example_activity) = Some d)
           (image_details off)"
    using structureActivity_images_dedup [OF built] by (simp only: list_all_iff) blast
  ultimately show ?thesis
    using built ev src by (simp add: off [symmetric])
qed

section \<open>Properties of the Description Renderer\<close>

lemma trim_Nil [simp]: "trim [] = []"
  by (simp add: trim_def)

text \<open>Reading the raw value of a section tree gives back its names, contents and groups.\<close>

lemma to_trimmed_text: "to_trimmed rt (map_option JStr v) = Inr (trim (text_of v))"
  by (cases v) (simp_all add: to_trimmed_def text_of_def)

lemma group_json_name: "get_prop (group_json g) ''group_name'' = map_option JStr (group_name g)"
  by (simp add: group_json_def string_member_def split: option.splits)

lemma group_json_content: "get_prop (group_json g) ''content'' = map_option JStr (content g)"
  by (simp add: group_json_def string_member_def split: option.splits)

lemma group_json_truthy: "truthy (group_json g)"
  by (simp add: group_json_def)

lemma section_json_name:
  "get_prop (section_json s) ''section_name'' = map_option JStr (section_name s)"
  by (simp add: section_json_def string_member_def split: option.splits)

lemma section_json_groups:
  "(case get_prop (section_json s) ''groups'' of Some (JArr gs) \<Rightarrow> gs | _ \<Rightarrow> []) =
     map group_json (groups_of s)"
  by (simp add: section_json_def string_member_def groups_of_def split: option.splits)

lemma section_json_object: "object_like (section_json s)"
  by (simp add: section_json_def)

lemma trim_group_sel:
  "text_of (group_name (trim_group g)) = trim (text_of (group_name g))"
  "text_of (content (trim_group g)) = trim (text_of (content g))"
  by (simp_all add: trim_group_def text_of_def)

lemma trim_section_sel:
  "text_of (section_name (trim_section s)) = trim (text_of (section_name s))"
  "groups_of (trim_section s) = map trim_group (groups_of s)"
  by (simp_all add: trim_section_def text_of_def groups_of_def)

lemma spec_group_block_nonempty: "text_of (content g) \<noteq> [] \<Longrightarrow> spec_group_block g \<noteq> []"
  by (simp add: spec_group_block_def)

lemma groups_loop_typed:
  "groups_loop rt (map group_json gs) acc =
     Inr (acc @ map spec_group_block
                  (filter (\<lambda>g. text_of (content g) \<noteq> []) (map trim_group gs)))"
proof (induction gs arbitrary: acc)
  case Nil
  show ?case by simp
next
  case (Cons g gs)
  show ?case
    using Cons.IH
    by (simp add: group_json_truthy group_json_name group_json_content to_trimmed_text
          trim_group_sel spec_group_block_def)
qed

lemma filter_nonempty_blocks:
  "filter (\<lambda>s. s \<noteq> []) (map spec_group_block (filter (\<lambda>g. text_of (content g) \<noteq> []) gs)) =
     map spec_group_block (filter (\<lambda>g. text_of (content g) \<noteq> []) gs)"
  by (induction gs) (auto simp: spec_group_block_nonempty)

lemma section_body_typed:
  "groups_loop rt (case get_prop (section_json s) ''groups'' of Some (JArr gs) \<Rightarrow> gs | _ \<Rightarrow> []) [] =
     Inr groupBlocks \<Longrightarrow>
   join ''\<newline>\<newline>'' (filter (\<lambda>s. s \<noteq> []) groupBlocks) = spec_section_body (trim_section s)"
  by (auto simp: section_json_groups groups_loop_typed filter_nonempty_blocks
        spec_section_body_def trim_section_sel)

lemma groups_loop_section:
  "\<exists>groupBlocks.
     groups_loop rt (case get_prop (section_json s) ''groups'' of Some (JArr gs) \<Rightarrow> gs | _ \<Rightarrow> []) [] =
       Inr groupBlocks"
  by (simp add: section_json_groups groups_loop_typed)

lemma spec_section_block_nonempty: "spec_section_body s \<noteq> [] \<Longrightarrow> spec_section_block s \<noteq> []"
  by (simp add: spec_section_block_def)

lemma sections_loop_typed:
  "sections_loop rt (map section_json secs) acc =
     Inr (acc @ map spec_section_block
                  (filter (\<lambda>s. spec_section_body s \<noteq> []) (map trim_section secs)))"
proof (induction secs arbitrary: acc)
  case Nil
  show ?case by simp
next
  case (Cons s secs)
  obtain groupBlocks where gb:
    "groups_loop rt (case get_prop (section_json s) ''groups'' of Some (JArr gs) \<Rightarrow> gs | _ \<Rightarrow> []) [] =
       Inr groupBlocks"
    using groups_loop_section by blast
  show ?case
    using Cons.IH section_body_typed [OF gb]
    by (simp add: section_json_object section_json_name to_trimmed_text gb Let_def
          trim_section_sel spec_section_block_def)
qed

lemma filter_nonempty_sections:
  "filter (\<lambda>s. s \<noteq> []) (map spec_section_block (filter (\<lambda>s. spec_section_body s \<noteq> []) secs)) =
     map spec_section_block (filter (\<lambda>s. spec_section_body s \<noteq> []) secs)"
  by (induction secs) (auto simp: spec_section_block_nonempty)

text \<open>On a tree that is trimmed already, trimming changes no text.\<close>

lemma trimmed_group_block:
  "trimmed_group g \<Longrightarrow>
     spec_group_block (trim_group g) = spec_group_block g \<and>
     text_of (content (trim_group g)) = text_of (content g)"
  by (simp add: trimmed_group_def spec_group_block_def trim_group_sel)

lemma trimmed_groups_blocks:
  "list_all trimmed_group gs \<Longrightarrow>
     map spec_group_block (filter (\<lambda>g. text_of (content g) \<noteq> []) (map trim_group gs)) =
     map spec_group_block (filter (\<lambda>g. text_of (content g) \<noteq> []) gs)"
  by (induction gs) (auto simp: trimmed_group_block)

lemma trimmed_section_block:
  "trimmed_section s \<Longrightarrow>
     spec_section_body (trim_section s) = spec_section_body s \<and>
     spec_section_block (trim_section s) = spec_section_block s"
  by (simp add: trimmed_section_def spec_section_body_def spec_section_block_def
        trim_section_sel trimmed_groups_blocks)

lemma trimmed_sections_blocks:
  "list_all trimmed_section secs \<Longrightarrow>
     map spec_section_block (filter (\<lambda>s. spec_section_body s \<noteq> []) (map trim_section secs)) =
     map spec_section_block (filter (\<lambda>s. spec_section_body s \<noteq> []) secs)"
  by (induction secs) (auto simp: trimmed_section_block)

text \<open>
  C7. For every section tree, \<open>renderSections\<close> returns the rendering that the
  specification words (\<open>spec_renderSections\<close>), applied to the tree in which every
  section name, group name and content is first trimmed of surrounding white space, an
  absent one being empty. On a tree whose names and contents carry no surrounding white
  space it returns the rendering of the tree as given. It returns the empty string for
  an absent input and for an empty sequence.
\<close>

theorem renderSections_trimmed_spec:
  "renderSections rt (Some (sections_json secs)) = Inr (spec_renderSections (map trim_section secs))
   \<and> (list_all trimmed_section secs \<longrightarrow>
        renderSections rt (Some (sections_json secs)) = Inr (spec_renderSections secs))
   \<and> renderSections rt None = Inr []
   \<and> renderSections rt (Some (JArr [])) = Inr []"
  by (simp add: renderSections_def sections_json_def spec_renderSections_def sections_loop_typed
        filter_nonempty_sections trimmed_sections_blocks)

theorem renderSections_trimmed_spec_witness:
  "list_all trimmed_section flat_sections
   \<and> renderSections (table_runtime []) (Some (sections_json flat_sections)) =
       Inr (spec_renderSections flat_sections)
   \<and> spec_renderSections flat_sections =
       ''## Highlights\<newline>### Views\<newline>Harbour at dusk\<newline>\<newline>Bring a hat\<newline>\<newline>Meet at pier 4''
   \<and> renderSections (table_runtime []) (Some (sections_json padded_sections)) =
       Inr ''## Highlights\<newline>### Views\<newline>Harbour at dusk''"
proof -
  have flat: "list_all trimmed_section flat_sections"
    by code_simp
  have rendered: "spec_renderSections flat_sections =
       ''## Highlights\<newline>### Views\<newline>Harbour at dusk\<newline>\<newline>Bring a hat\<newline>\<newline>Meet at pier 4''"
    by code_simp
  have padded: "spec_renderSections (map trim_section padded_sections) =
       ''## Highlights\<newline>### Views\<newline>Harbour at dusk''"
    by code_simp
  have given: "renderSections (table_runtime []) (Some (sections_json flat_sections)) =
       Inr (spec_renderSections flat_sections)"
    using flat renderSections_trimmed_spec [of "table_runtime []" flat_sections] by blast
  have trimmed: "renderSections (table_runtime []) (Some (sections_json padded_sections)) =
       Inr ''## Highlights\<newline>### Views\<newline>Harbour at dusk''"
    using conjunct1 [OF renderSections_trimmed_spec [of "table_runtime []" padded_sections]]
    by (simp only: padded)
  show ?thesis
    by (rule conjI [OF flat conjI [OF given conjI [OF rendered trimmed]]])
qed

text \<open>
  The rendering of the specification applied to the names and contents as they are
  given keeps the surrounding white space and the group whose content is white space
  only; \<open>renderSections\<close> does not.
\<close>

theorem renderSections_untrimmed_counterexample:
  "renderSections (table_runtime []) (Some (sections_json padded_sections)) =
       Inr ''## Highlights\<newline>### Views\<newline>Harbour at dusk''
   \<and> spec_renderSections padded_sections =
       ''##  Highlights \<newline>### Views\<newline> Harbour at dusk \<newline>\<newline>### Blank\<newline>  ''"
  by code_simp

text \<open>
  On a raw value in which entries are not objects, \<open>renderSections\<close> passes over
  them.
\<close>

lemma renderSections_example:
  "renderSections (table_runtime []) (Some example_sections) =
   Inr ''## Highlights\<newline>### Views\<newline>Harbour at dusk\<newline>\<newline>Bring a hat\<newline>\<newline>Meet at pier 4''"
  by code_simp

section \<open>Properties of the Response Reconciler\<close>

lemma str_truthy_simps [simp]:
  "str_truthy None = False" "str_truthy (Some u) = (u \<noteq> [])"
  by (simp_all add: str_truthy_def)

lemma findIndex_Some:
  "findIndex P xs = Some k \<Longrightarrow> k < length xs \<and> P (xs ! k) \<and> (\<forall>j<k. \<not> P (xs ! j))"
proof (induction xs arbitrary: k)
  case Nil
  then show ?case by simp
next
  case (Cons x xs)
  show ?case
  proof (cases "P x")
    case True
    then show ?thesis using Cons.prems by simp
  next
    case False
    then obtain k' where k': "findIndex P xs = Some k'" "k = Suc k'"
      using Cons.prems by (auto split: option.splits)
    from Cons.IH [OF k'(1)] False k'(2) show ?thesis
      by (auto simp: nth_Cons split: nat.splits)
  qed
qed

lemma findIndex_None: "findIndex P xs = None \<longleftrightarrow> (\<forall>x \<in> set xs. \<not> P x)"
  by (induction xs) (auto split: option.splits)

lemma findIndex_exists: "x \<in> set xs \<Longrightarrow> P x \<Longrightarrow> \<exists>k. findIndex P xs = Some k"
  using findIndex_None [of P xs] by (cases "findIndex P xs") auto

lemma gradeOffer_reconcile_hero:
  "gradeOffer_reconcile rt offer rid parsed = Inr r \<Longrightarrow>
     \<exists>u0. initial_hero_url rt (get_prop parsed ''hero_image_url'') = Inr u0 \<and>
       (hero_image_index r, hero_image_url r) =
         reconcile_hero (image_details offer)
           (coerce_index (get_prop parsed ''hero_image_index'')) u0"
  by (auto simp: gradeOffer_reconcile_def Let_def split: if_splits prod.splits sum.splits)

lemma initial_hero_url_nonempty: "initial_hero_url rt v = Inr (Some u) \<Longrightarrow> u \<noteq> []"
  by (auto simp: initial_hero_url_def Let_def split: option.splits if_splits sum.splits)

lemma reconcile_hero_in_range:
  assumes "reconcile_hero ds idx0 url0 = (Some i, u)"
    and "\<forall>d \<in> set ds. str_truthy (url d)"
  shows "1 \<le> i \<and> i \<le> int (length ds) \<and> u = url (ds ! nat (i - 1))"
proof (cases "\<exists>j. idx0 = Some j \<and> 1 \<le> j \<and> j \<le> int (length ds)")
  case True
  then obtain j where j: "idx0 = Some j" "1 \<le> j" "j \<le> int (length ds)" by blast
  then have "ds ! nat (j - 1) \<in> set ds" by simp
  with assms(2) have t: "str_truthy (url (ds ! nat (j - 1)))" by blast
  show ?thesis
    using assms(1) j t
    by (auto simp: reconcile_hero_def Let_def url_at_def split: if_splits option.splits)
next
  case False
  then have idx1: "(case idx0 of None \<Rightarrow> (None, url0)
         | Some i \<Rightarrow> if 1 \<le> i \<and> i \<le> int (length ds)
             then (Some i, let candidate = url (ds ! nat (i - 1))
                   in if str_truthy candidate then candidate else url0)
             else (None, url0)) = (None, url0)"
    by (auto split: option.splits)
  show ?thesis
    using assms(1) unfolding reconcile_hero_def idx1
    by (auto simp: Let_def split: if_splits option.splits dest!: findIndex_Some)
qed

lemma reconcile_hero_out_of_range:
  assumes "idx0 = Some j" "j < 1 \<or> int (length ds) < j"
  shows "reconcile_hero ds idx0 url0 = reconcile_hero ds None url0"
  using assms by (auto simp: reconcile_hero_def)

lemma reconcile_hero_no_index:
  "reconcile_hero ds None url0 =
     (let kept = (case url0 of None \<Rightarrow> None
                  | Some u \<Rightarrow> if u \<noteq> [] \<and> startsWith u ''attachment://'' then None else Some u)
      in (if str_truthy kept
          then map_option (\<lambda>k. int k + 1) (findIndex (\<lambda>item. url item = kept) ds)
          else None, kept))"
  by (auto simp: reconcile_hero_def Let_def str_truthy_def split: option.splits)

lemma startsWith_Nil: "startsWith [] ''attachment://'' = False"
  by (simp add: startsWith_def)

text \<open>
  C1 (as amended). For every parsed reply that is reconciled to a result and every
  offer whose image details all carry a non-empty URL (which the Image Resolver
  guarantees): if the result's hero-image index is present, it lies between 1 and the
  number of image details and the result's URL is the URL at that position. If the index
  returned by the service is out of that range it is discarded, and index and URL are
  those of a reply without index: the URL is the trimmed URL of the reply (which was
  converted to a string without an exception) unless it is empty or uses the attachment
  scheme, and the index is the 1-based position of the first image carrying that URL,
  absent when there is none.
\<close>

theorem hero_index_consistent:
  assumes "gradeOffer_reconcile rt offer rid parsed = Inr r"
    and "\<forall>d \<in> set (image_details offer). str_truthy (url d)"
  shows "(\<forall>i. hero_image_index r = Some i \<longrightarrow>
            1 \<le> i \<and> i \<le> int (length (image_details offer)) \<and>
            hero_image_url r = url (image_details offer ! nat (i - 1)))
       \<and> (\<exists>u0. initial_hero_url rt (get_prop parsed ''hero_image_url'') = Inr u0 \<and>
            (\<forall>j. coerce_index (get_prop parsed ''hero_image_index'') = Some j \<and>
                 (j < 1 \<or> int (length (image_details offer)) < j) \<longrightarrow>
               (let kept = (case u0 of
                              None \<Rightarrow> None
                            | Some u \<Rightarrow> if startsWith u ''attachment://'' then None else Some u)
                in hero_image_url r = kept \<and>
                   hero_image_index r =
                     (case kept of
                        None \<Rightarrow> None
                      | Some u \<Rightarrow> map_option (\<lambda>k. int k + 1)
                                   (findIndex (\<lambda>item. url item = Some u) (image_details offer))))))"
proof -
  let ?ds = "image_details offer"
  obtain u0 where u0: "initial_hero_url rt (get_prop parsed ''hero_image_url'') = Inr u0"
    and hero: "(hero_image_index r, hero_image_url r) =
      reconcile_hero ?ds (coerce_index (get_prop parsed ''hero_image_index'')) u0"
    using gradeOffer_reconcile_hero [OF assms(1)] by blast
  have in_range: "1 \<le> i \<and> i \<le> int (length ?ds) \<and> hero_image_url r = url (?ds ! nat (i - 1))"
    if "hero_image_index r = Some i" for i
  proof -
    from hero that
    have "reconcile_hero ?ds (coerce_index (get_prop parsed ''hero_image_index'')) u0 =
            (Some i, hero_image_url r)"
      by simp
    from reconcile_hero_in_range [OF this assms(2)] show ?thesis .
  qed
  have discarded:
    "let kept = (case u0 of None \<Rightarrow> None
                 | Some u \<Rightarrow> if startsWith u ''attachment://'' then None else Some u)
     in hero_image_url r = kept \<and>
        hero_image_index r =
          (case kept of
             None \<Rightarrow> None
           | Some u \<Rightarrow> map_option (\<lambda>k. int k + 1) (findIndex (\<lambda>item. url item = Some u) ?ds))"
    if "coerce_index (get_prop parsed ''hero_image_index'') = Some j \<and>
        (j < 1 \<or> int (length ?ds) < j)" for j
  proof -
    have "(hero_image_index r, hero_image_url r) = reconcile_hero ?ds None u0"
      using hero reconcile_hero_out_of_range [of _ j] that by simp
    then show ?thesis
      using initial_hero_url_nonempty [of rt "get_prop parsed ''hero_image_url''"] u0
      by (auto simp: reconcile_hero_no_index Let_def split: option.splits)
  qed
  show ?thesis
    using in_range discarded u0 by blast
qed


theorem hero_index_consistent_witness:
  "gradeOffer_reconcile (table_runtime []) (offer_of_urls five_urls) (Some ''resp_1'')
       (JObj [(''score'', JNum (Finite 4)), (''reason'', JStr ''Clear title.''),
              (''hero_image_index'', JNum (Finite 3)),
              (''hero_image_url'', JStr ''https://elsewhere/x.jpg'')]) =
     Inr \<lparr> activity_id = JNum (Finite 7), score = Some (Finite 4), reason = ''Clear title.'',
           categories = [], target_audiences = [], hero_image_index = Some 3,
           hero_image_url = Some ''https://img/3.jpg'', hero_image_reason = [],
           response_id = Some ''resp_1'' \<rparr>
   \<and> list_all (\<lambda>d. str_truthy (url d)) (image_details (offer_of_urls five_urls))
   \<and> (1 \<le> (3::int) \<and> 3 \<le> int (length (image_details (offer_of_urls five_urls)))
        \<and> Some ''https://img/3.jpg'' = url (image_details (offer_of_urls five_urls) ! nat (3 - 1)))
   \<and> coerce_index (get_prop (JObj [(''score'', JNum (Finite 4)), (''reason'', JStr ''Clear title.''),
              (''hero_image_index'', JNum (Finite 9)),
              (''hero_image_url'', JStr ''https://img/2.jpg'')]) ''hero_image_index'') = Some 9
   \<and> int (length (image_details (offer_of_urls five_urls))) < 9
   \<and> Some 2 = map_option (\<lambda>k. int k + 1)
                 (findIndex (\<lambda>item. url item = Some ''https://img/2.jpg'')
                    (image_details (offer_of_urls five_urls)))"
proof -
  let ?rt = "table_runtime []"
  let ?offer = "offer_of_urls five_urls"
  let ?parsed9 = "JObj [(''score'', JNum (Finite 4)), (''reason'', JStr ''Clear title.''),
              (''hero_image_index'', JNum (Finite 9)),
              (''hero_image_url'', JStr ''https://img/2.jpg'')]"
  have ev: "gradeOffer_reconcile ?rt ?offer (Some ''resp_1'')
       (JObj [(''score'', JNum (Finite 4)), (''reason'', JStr ''Clear title.''),
              (''hero_image_index'', JNum (Finite 3)),
              (''hero_image_url'', JStr ''https://elsewhere/x.jpg'')]) =
     Inr \<lparr> activity_id = JNum (Finite 7), score = Some (Finite 4), reason = ''Clear title.'',
           categories = [], target_audiences = [], hero_image_index = Some 3,
           hero_image_url = Some ''https://img/3.jpg'', hero_image_reason = [],
           response_id = Some ''resp_1'' \<rparr>"
    by code_simp
  have urls: "list_all (\<lambda>d. str_truthy (url d)) (image_details ?offer)"
    by code_simp
  then have all_urls: "\<forall>d \<in> set (image_details ?offer). str_truthy (url d)"
    by (simp only: list_all_iff)
  have in_range: "1 \<le> (3::int) \<and> 3 \<le> int (length (image_details ?offer))
        \<and> Some ''https://img/3.jpg'' = url (image_details ?offer ! nat (3 - 1))"
    using hero_index_consistent [OF ev all_urls] by simp
  have ev9: "gradeOffer_reconcile ?rt ?offer (Some ''resp_1'') ?parsed9 =
     Inr \<lparr> activity_id = JNum (Finite 7), score = Some (Finite 4), reason = ''Clear title.'',
           categories = [], target_audiences = [], hero_image_index = Some 2,
           hero_image_url = Some ''https://img/2.jpg'', hero_image_reason = [],
           response_id = Some ''resp_1'' \<rparr>"
    by code_simp
  have i9: "coerce_index (get_prop ?parsed9 ''hero_image_index'') = Some 9"
    by code_simp
  have len: "int (length (image_details ?offer)) < 9"
    by code_simp
  have u9: "initial_hero_url ?rt (get_prop ?parsed9 ''hero_image_url'') = Inr (Some ''https://img/2.jpg'')"
    by code_simp
  have sw: "\<not> startsWith ''https://img/2.jpg'' ''attachment://''"
    by code_simp
  have "let kept = (case Some ''https://img/2.jpg'' of
                      None \<Rightarrow> None
                    | Some u \<Rightarrow> if startsWith u ''attachment://'' then None else Some u)
        in Some ''https://img/2.jpg'' = kept \<and>
           Some 2 = (case kept of
                       None \<Rightarrow> None
                     | Some u \<Rightarrow> map_option (\<lambda>k. int k + 1)
                                  (findIndex (\<lambda>item. url item = Some u) (image_details ?offer)))"
    using conjunct2 [OF hero_index_consistent [OF ev9 all_urls]] i9 len unfolding u9 by simp
  then have discarded: "Some 2 = map_option (\<lambda>k. int k + 1)
                 (findIndex (\<lambda>item. url item = Some ''https://img/2.jpg'') (image_details ?offer))"
    using sw by (simp add: Let_def)
  from ev urls in_range i9 len discarded show ?thesis
    by blast
qed

theorem hero_index_out_of_range_counterexample:
  "coerce_index (Some (JNum (Finite 9))) = Some 9
   \<and> length (image_details (offer_of_urls five_urls)) = 5
   \<and> gradeOffer_reconcile (table_runtime []) (offer_of_urls five_urls) (Some ''resp_1'')
       (JObj [(''score'', JNum (Finite 4)), (''reason'', JStr ''Clear title.''),
              (''hero_image_index'', JNum (Finite 9)),
              (''hero_image_url'', JStr ''https://img/2.jpg'')]) =
     Inr \<lparr> activity_id = JNum (Finite 7), score = Some (Finite 4), reason = ''Clear title.'',
           categories = [], target_audiences = [], hero_image_index = Some 2,
           hero_image_url = Some ''https://img/2.jpg'', hero_image_reason = [],
           response_id = Some ''resp_1'' \<rparr>"
  by code_simp

text \<open>
  C3 (as amended). The final hero-image URL uses the attachment scheme only when it is
  the URL of the offer's own image at the result's hero-image index; and for every reply
  carrying an attachment-scheme URL and no index, both the hero-image index and the
  hero-image URL of the result are absent.
\<close>

theorem hero_url_attachment_scheme:
  assumes "gradeOffer_reconcile rt offer rid parsed = Inr r"
  shows "(\<forall>u. hero_image_url r = Some u \<and> startsWith u ''attachment://'' \<longrightarrow>
            (\<exists>i. hero_image_index r = Some i \<and> 1 \<le> i \<and> i \<le> int (length (image_details offer)) \<and>
                 url (image_details offer ! nat (i - 1)) = Some u))
       \<and> (\<forall>u. coerce_index (get_prop parsed ''hero_image_index'') = None \<and>
              initial_hero_url rt (get_prop parsed ''hero_image_url'') = Inr (Some u) \<and>
              startsWith u ''attachment://'' \<longrightarrow>
            hero_image_index r = None \<and> hero_image_url r = None)"
proof -
  let ?ds = "image_details offer"
  let ?i0 = "coerce_index (get_prop parsed ''hero_image_index'')"
  obtain u0 where u0: "initial_hero_url rt (get_prop parsed ''hero_image_url'') = Inr u0"
    and hero: "(hero_image_index r, hero_image_url r) = reconcile_hero ?ds ?i0 u0"
    using gradeOffer_reconcile_hero [OF assms] by blast
  have idx: "hero_image_index r = fst (reconcile_hero ?ds ?i0 u0)"
   and url: "hero_image_url r = snd (reconcile_hero ?ds ?i0 u0)"
    by (simp_all add: hero [symmetric])
  have own: "\<exists>i. hero_image_index r = Some i \<and> 1 \<le> i \<and> i \<le> int (length ?ds) \<and>
                 url (?ds ! nat (i - 1)) = Some u"
    if "hero_image_url r = Some u \<and> startsWith u ''attachment://''" for u
    using that unfolding idx url
    by (auto simp: reconcile_hero_def Let_def url_at_def startsWith_Nil
          split: option.splits if_splits)
  have none: "hero_image_index r = None \<and> hero_image_url r = None"
    if "?i0 = None \<and> initial_hero_url rt (get_prop parsed ''hero_image_url'') = Inr (Some u)
          \<and> startsWith u ''attachment://''" for u
    using that initial_hero_url_nonempty [of rt "get_prop parsed ''hero_image_url''" u] u0
    unfolding idx url
    by (auto simp: reconcile_hero_no_index Let_def)
  show ?thesis using own none by blast
qed

theorem hero_url_attachment_scheme_witness:
  "gradeOffer_reconcile (table_runtime []) (offer_of_urls five_urls) (Some ''resp_1'')
       (JObj [(''score'', JNum (Finite 4)), (''reason'', JStr ''Clear title.''),
              (''hero_image_url'', JStr '' attachment://file_9 '')]) =
     Inr \<lparr> activity_id = JNum (Finite 7), score = Some (Finite 4), reason = ''Clear title.'',
           categories = [], target_audiences = [], hero_image_index = None,
           hero_image_url = None, hero_image_reason = [],
           response_id = Some ''resp_1'' \<rparr>
   \<and> coerce_index (get_prop (JObj [(''score'', JNum (Finite 4)), (''reason'', JStr ''Clear title.''),
              (''hero_image_url'', JStr '' attachment://file_9 '')]) ''hero_image_index'') = None
   \<and> initial_hero_url (table_runtime [])
        (get_prop (JObj [(''score'', JNum (Finite 4)), (''reason'', JStr ''Clear title.''),
              (''hero_image_url'', JStr '' attachment://file_9 '')]) ''hero_image_url'') =
        Inr (Some ''attachment://file_9'')
   \<and> startsWith ''attachment://file_9'' ''attachment://''
   \<and> hero_image_url (projr (gradeOffer_reconcile (table_runtime [])
          (offer_of_urls [''attachment://file_1'']) (Some ''resp_1'')
          (JObj [(''score'', JNum (Finite 4)), (''reason'', JStr ''Clear title.''),
                 (''hero_image_index'', JNum (Finite 1))]))) = Some ''attachment://file_1''
   \<and> url (image_details (offer_of_urls [''attachment://file_1'']) ! nat (1 - 1)) =
         Some ''attachment://file_1''"
proof -
  let ?parsed = "JObj [(''score'', JNum (Finite 4)), (''reason'', JStr ''Clear title.''),
              (''hero_image_url'', JStr '' attachment://file_9 '')]"
  let ?own = "offer_of_urls [''attachment://file_1'']"
  let ?parsed1 = "JObj [(''score'', JNum (Finite 4)), (''reason'', JStr ''Clear title.''),
                 (''hero_image_index'', JNum (Finite 1))]"
  have i0: "coerce_index (get_prop ?parsed ''hero_image_index'') = None"
    by code_simp
  have u0: "initial_hero_url (table_runtime []) (get_prop ?parsed ''hero_image_url'') =
              Inr (Some ''attachment://file_9'')"
    by code_simp
  have sw: "startsWith ''attachment://file_9'' ''attachment://''"
    by code_simp
  have ev: "gradeOffer_reconcile (table_runtime []) (offer_of_urls five_urls) (Some ''resp_1'') ?parsed =
     Inr \<lparr> activity_id = JNum (Finite 7), score = Some (Finite 4), reason = ''Clear title.'',
           categories = [], target_audiences = [], hero_image_index = None,
           hero_image_url = None, hero_image_reason = [],
           response_id = Some ''resp_1'' \<rparr>"
    by code_simp
  have absent: "hero_image_index (projr (gradeOffer_reconcile (table_runtime [])
                  (offer_of_urls five_urls) (Some ''resp_1'') ?parsed)) = None"
    using hero_url_attachment_scheme [OF ev] i0 u0 sw ev by simp
  have ev1: "gradeOffer_reconcile (table_runtime []) ?own (Some ''resp_1'') ?parsed1 =
     Inr \<lparr> activity_id = JNum (Finite 7), score = Some (Finite 4), reason = ''Clear title.'',
           categories = [], target_audiences = [], hero_image_index = Some 1,
           hero_image_url = Some ''attachment://file_1'', hero_image_reason = [],
           response_id = Some ''resp_1'' \<rparr>"
    by code_simp
  have sw1: "startsWith ''attachment://file_1'' ''attachment://''"
    by code_simp
  have own: "url (image_details ?own ! nat (1 - 1)) = Some ''attachment://file_1''"
    using hero_url_attachment_scheme [OF ev1] sw1 by auto
  from ev i0 u0 sw ev1 own absent show ?thesis
    by simp
qed

theorem hero_url_attachment_scheme_counterexample:
  "gradeOffer_reconcile (table_runtime []) (offer_of_urls [''attachment://file_1'']) (Some ''resp_1'')
       (JObj [(''score'', JNum (Finite 4)), (''reason'', JStr ''Clear title.''),
              (''hero_image_index'', JNum (Finite 1))]) =
     Inr \<lparr> activity_id = JNum (Finite 7), score = Some (Finite 4), reason = ''Clear title.'',
           categories = [], target_audiences = [], hero_image_index = Some 1,
           hero_image_url = Some ''attachment://file_1'', hero_image_reason = [],
           response_id = Some ''resp_1'' \<rparr>
   \<and> startsWith ''attachment://file_1'' ''attachment://''"
  by code_simp

text \<open>
  C4. For every reply whose URL survives (non-empty after trimming, not of the
  attachment scheme) and whose index is absent or out of range, if the URL equals the
  URL of some image detail of the offer then the result keeps the URL and its hero-image
  index is the 1-based position of the first image detail carrying it.
\<close>

theorem hero_index_from_url:
  assumes "gradeOffer_reconcile rt offer rid parsed = Inr r"
    and "\<forall>i. coerce_index (get_prop parsed ''hero_image_index'') = Some i \<longrightarrow>
              i < 1 \<or> int (length (image_details offer)) < i"
    and "initial_hero_url rt (get_prop parsed ''hero_image_url'') = Inr (Some u)"
    and "\<not> startsWith u ''attachment://''"
    and "Some u \<in> url ` set (image_details offer)"
  shows "hero_image_url r = Some u
       \<and> (\<exists>k. hero_image_index r = Some (int k + 1) \<and> k < length (image_details offer) \<and>
              url (image_details offer ! k) = Some u \<and>
              (\<forall>j<k. url (image_details offer ! j) \<noteq> Some u))"
proof -
  let ?ds = "image_details offer"
  let ?i0 = "coerce_index (get_prop parsed ''hero_image_index'')"
  have hero: "(hero_image_index r, hero_image_url r) = reconcile_hero ?ds ?i0 (Some u)"
    using gradeOffer_reconcile_hero [OF assms(1)] assms(3) by simp
  have "reconcile_hero ?ds ?i0 (Some u) = reconcile_hero ?ds None (Some u)"
  proof (cases ?i0)
    case None
    then show ?thesis by simp
  next
    case (Some j)
    with assms(2) have "j < 1 \<or> int (length ?ds) < j" by simp
    from reconcile_hero_out_of_range [OF Some this] show ?thesis .
  qed
  with hero have no_index: "(hero_image_index r, hero_image_url r) = reconcile_hero ?ds None (Some u)"
    by simp
  have ne: "u \<noteq> []" by (rule initial_hero_url_nonempty [OF assms(3)])
  from assms(5) obtain d where "d \<in> set ?ds" "url d = Some u" by force
  from findIndex_exists [of d ?ds "\<lambda>item. url item = Some u", OF this]
  obtain k where k: "findIndex (\<lambda>item. url item = Some u) ?ds = Some k" by blast
  from no_index k ne assms(4)
  have res: "hero_image_url r = Some u" "hero_image_index r = Some (int k + 1)"
    by (simp_all add: reconcile_hero_no_index Let_def)
  from findIndex_Some [OF k] res show ?thesis by blast
qed

theorem hero_index_from_url_witness:
  "gradeOffer_reconcile (table_runtime []) (offer_of_urls five_urls) (Some ''resp_1'')
       (JObj [(''score'', JNum (Finite 4)), (''reason'', JStr ''Clear title.''),
              (''hero_image_url'', JStr ''https://img/2.jpg'')]) =
     Inr \<lparr> activity_id = JNum (Finite 7), score = Some (Finite 4), reason = ''Clear title.'',
           categories = [], target_audiences = [], hero_image_index = Some 2,
           hero_image_url = Some ''https://img/2.jpg'', hero_image_reason = [],
           response_id = Some ''resp_1'' \<rparr>
   \<and> coerce_index (get_prop (JObj [(''score'', JNum (Finite 4)), (''reason'', JStr ''Clear title.''),
              (''hero_image_url'', JStr ''https://img/2.jpg'')]) ''hero_image_index'') = None
   \<and> map url (image_details (offer_of_urls five_urls)) = map Some five_urls
   \<and> (\<exists>k. Some (2::int) = Some (int k + 1) \<and> k < length (image_details (offer_of_urls five_urls)) \<and>
          url (image_details (offer_of_urls five_urls) ! k) = Some ''https://img/2.jpg'')"
proof -
  let ?parsed = "JObj [(''score'', JNum (Finite 4)), (''reason'', JStr ''Clear title.''),
              (''hero_image_url'', JStr ''https://img/2.jpg'')]"
  have ev: "gradeOffer_reconcile (table_runtime []) (offer_of_urls five_urls) (Some ''resp_1'') ?parsed =
     Inr \<lparr> activity_id = JNum (Finite 7), score = Some (Finite 4), reason = ''Clear title.'',
           categories = [], target_audiences = [], hero_image_index = Some 2,
           hero_image_url = Some ''https://img/2.jpg'', hero_image_reason = [],
           response_id = Some ''resp_1'' \<rparr>"
    by code_simp
  have i0: "coerce_index (get_prop ?parsed ''hero_image_index'') = None"
    by code_simp
  then have h2: "\<forall>i. coerce_index (get_prop ?parsed ''hero_image_index'') = Some i \<longrightarrow>
              i < 1 \<or> int (length (image_details (offer_of_urls five_urls))) < i"
    by simp
  have u0: "initial_hero_url (table_runtime []) (get_prop ?parsed ''hero_image_url'') =
              Inr (Some ''https://img/2.jpg'')"
    by code_simp
  have sw: "\<not> startsWith ''https://img/2.jpg'' ''attachment://''"
    by code_simp
  have urls: "map url (image_details (offer_of_urls five_urls)) = map Some five_urls"
    by code_simp
  then have "set (map url (image_details (offer_of_urls five_urls))) = set (map Some five_urls)"
    by simp
  then have mem: "Some ''https://img/2.jpg'' \<in> url ` set (image_details (offer_of_urls five_urls))"
    by (simp add: five_urls_def)
  from hero_index_from_url [OF ev h2 u0 sw mem] ev i0 urls show ?thesis
    by simp
qed

lemma imagePayload_length: "length (imagePayload offer) \<le> MAX_IMAGES_TO_REVIEW"
proof -
  have "length (filter_Boolean xs) \<le> length xs" for xs
    by (induction xs rule: filter_Boolean.induct) auto
  from this [of "map url (take MAX_IMAGES_TO_REVIEW (image_details offer))"]
  show ?thesis by (simp add: imagePayload_def)
qed

lemma build_request_slice:
  "build_request rt (offer\<lparr>image_details := take MAX_IMAGES_TO_REVIEW (image_details offer)\<rparr>) =
     build_request rt offer"
  by (simp add: build_request_def buildOfferPrompt_def request_of_def imagePayload_def Let_def
        cong: sum.case_cong)

lemma build_request_images:
  "build_request rt offer = Inr req \<Longrightarrow> input_images req = imagePayload offer"
  by (auto simp: build_request_def request_of_def split: sum.splits)

text \<open>
  C10. The index is validated against the whole list of image details: for an index
  \<open>i\<close> with \<open>8 < i\<close> and \<open>i\<close> at most the number of image details, the result keeps
  \<open>i\<close> and takes the URL of the image at position \<open>i\<close>, although the images attached
  to the request (\<open>imagePayload\<close>, the \<open>input_images\<close> of every request built for the
  offer) are fewer than \<open>i\<close>, at most 8, and building the request from the first 8
  image details alone gives the same outcome.
\<close>

theorem hero_index_beyond_prompt_slice:
  assumes "gradeOffer_reconcile rt offer rid parsed = Inr r"
    and "coerce_index (get_prop parsed ''hero_image_index'') = Some i"
    and "8 < i" and "i \<le> int (length (image_details offer))"
    and "url (image_details offer ! nat (i - 1)) = Some u" and "u \<noteq> []"
  shows "hero_image_index r = Some i
       \<and> hero_image_url r = Some u
       \<and> length (imagePayload offer) < nat i
       \<and> (\<forall>req. build_request rt offer = Inr req \<longrightarrow>
              input_images req = imagePayload offer \<and> length (input_images req) < nat i)
       \<and> build_request rt (offer\<lparr>image_details := take MAX_IMAGES_TO_REVIEW (image_details offer)\<rparr>) =
           build_request rt offer"
proof -
  let ?ds = "image_details offer"
  obtain u0 where hero: "(hero_image_index r, hero_image_url r) = reconcile_hero ?ds (Some i) u0"
    using gradeOffer_reconcile_hero [OF assms(1)] assms(2) by auto
  have kept: "hero_image_index r = Some i \<and> hero_image_url r = Some u"
    using hero assms(3,4,5,6)
    by (auto simp: reconcile_hero_def Let_def url_at_def)
  have "length (imagePayload offer) \<le> 8"
    using imagePayload_length [of offer] by (simp add: MAX_IMAGES_TO_REVIEW_def)
  with assms(3) have unseen: "length (imagePayload offer) < nat i"
    by linarith
  show ?thesis using kept unseen build_request_images build_request_slice by metis
qed

theorem hero_index_beyond_prompt_slice_witness:
  "gradeOffer_reconcile (table_runtime []) (offer_of_urls nine_urls) (Some ''resp_1'')
       (JObj [(''score'', JNum (Finite 4)), (''reason'', JStr ''Clear title.''),
              (''hero_image_index'', JNum (Finite 9))]) =
     Inr \<lparr> activity_id = JNum (Finite 7), score = Some (Finite 4), reason = ''Clear title.'',
           categories = [], target_audiences = [], hero_image_index = Some 9,
           hero_image_url = Some ''https://img/9.jpg'', hero_image_reason = [],
           response_id = Some ''resp_1'' \<rparr>
   \<and> length (image_details (offer_of_urls nine_urls)) = 9
   \<and> (\<exists>req. build_request (table_runtime []) (offer_of_urls nine_urls) = Inr req
          \<and> input_images req = take 8 nine_urls
          \<and> length (input_images req) < nat 9)"
proof -
  let ?parsed = "JObj [(''score'', JNum (Finite 4)), (''reason'', JStr ''Clear title.''),
              (''hero_image_index'', JNum (Finite 9))]"
  have ev: "gradeOffer_reconcile (table_runtime []) (offer_of_urls nine_urls) (Some ''resp_1'') ?parsed =
     Inr \<lparr> activity_id = JNum (Finite 7), score = Some (Finite 4), reason = ''Clear title.'',
           categories = [], target_audiences = [], hero_image_index = Some 9,
           hero_image_url = Some ''https://img/9.jpg'', hero_image_reason = [],
           response_id = Some ''resp_1'' \<rparr>"
    by code_simp
  have i0: "coerce_index (get_prop ?parsed ''hero_image_index'') = Some 9"
    by code_simp
  have len: "length (image_details (offer_of_urls nine_urls)) = 9"
    by code_simp
  have le: "(9::int) \<le> int (length (image_details (offer_of_urls nine_urls)))"
    by (simp add: len)
  have u9: "url (image_details (offer_of_urls nine_urls) ! nat (9 - 1)) = Some ''https://img/9.jpg''"
    by code_simp
  have built: "build_request (table_runtime []) (offer_of_urls nine_urls) =
                 Inr (projr (build_request (table_runtime []) (offer_of_urls nine_urls)))"
    by code_simp
  have imgs: "input_images (projr (build_request (table_runtime []) (offer_of_urls nine_urls))) =
                take 8 nine_urls"
    by code_simp
  have "length (input_images (projr (build_request (table_runtime []) (offer_of_urls nine_urls)))) < nat 9"
    using hero_index_beyond_prompt_slice [OF ev i0 _ le u9] built by simp
  with built imgs have "\<exists>req. build_request (table_runtime []) (offer_of_urls nine_urls) = Inr req
          \<and> input_images req = take 8 nine_urls
          \<and> length (input_images req) < nat 9"
    by blast
  with ev len show ?thesis
    by simp
qed

section \<open>Scores and replies without JSON\<close>

lemma normalise_score_number:
  "normalise_score rt (Some (JNum (Finite x))) = Inr (Some (Finite (min 5 (max 0 x))))"
  by (simp add: normalise_score_def js_Number_def Math_max0_def Math_min5_def)

lemma normalise_score_absent:
  "normalise_score rt v = Inr None \<longleftrightarrow> js_Number rt v = Inr NaN"
  by (auto simp: normalise_score_def split: sum.splits)

lemma normalise_score_null: "normalise_score rt (Some JNull) = Inr (Some (Finite 0))"
  by (simp add: normalise_score_def js_Number_def Math_max0_def Math_min5_def)

text \<open>A conversion to a number throws exactly when the conversion to a string does.\<close>

lemma normalise_score_throws:
  "normalise_score rt (Some v) = Inl e \<longleftrightarrow>
     (\<exists>xs kvs. v = JArr xs \<or> v = JObj kvs) \<and> js_String rt v = Inl e"
  by (cases v) (auto simp: normalise_score_def js_Number_def split: sum.splits)

lemma gradeOffer_reconcile_score:
  "gradeOffer_reconcile rt offer rid parsed = Inr r \<Longrightarrow>
     normalise_score rt (get_prop parsed ''score'') = Inr (score r) \<and>
     reason r = (case (case get_prop parsed ''reason'' of
                         None \<Rightarrow> parsed | Some JNull \<Rightarrow> parsed | Some x \<Rightarrow> x) of
                   JStr s \<Rightarrow> s | x \<Rightarrow> JSON_stringify rt x) \<and>
     response_id r = rid"
  by (auto simp: gradeOffer_reconcile_def Let_def split: if_splits prod.splits sum.splits)

text \<open>A reply that holds a \<^verbatim>\<open>null\<close> score and a reason, and nothing else.\<close>

lemma gradeOffer_reconcile_null_score:
  "\<exists>r. gradeOffer_reconcile rt offer rid (JObj [(''score'', JNull), (''reason'', JStr s)]) = Inr r \<and>
       score r = Some (Finite 0) \<and> reason r = s \<and> response_id r = rid"
  by (simp add: gradeOffer_reconcile_def normaliseStringList_def initial_hero_url_def
        normalise_score_null Let_def split: prod.splits)

lemma gradeOffer_replied:
  "build_request rt offer = Inr request \<Longrightarrow> service request = Replied response \<Longrightarrow>
     gradeOffer rt service offer =
       gradeOffer_reconcile rt offer
         (case resp_id response of Some (JStr s) \<Rightarrow> Some s | _ \<Rightarrow> None)
         (parseJsonResponse rt (collectResponseText response))"
  by (auto simp: gradeOffer_def build_request_def split: sum.splits)

lemma parseJsonResponse_failure:
  assumes "text \<noteq> []" and "JSON_parse rt text = None"
    and "\<forall>m. match_braces text = Some m \<longrightarrow> JSON_parse rt m = None"
  shows "parseJsonResponse rt text = parse_failure text"
  using assms by (auto simp: parseJsonResponse_def split: option.splits)

lemma gradeOffer_unparsable_reply:
  assumes "build_request rt offer = Inr request"
    and "service request = Replied response"
    and "collectResponseText response \<noteq> []"
    and "JSON_parse rt (collectResponseText response) = None"
    and "\<forall>m. match_braces (collectResponseText response) = Some m \<longrightarrow> JSON_parse rt m = None"
  shows "\<exists>r. gradeOffer rt service offer = Inr r \<and>
             score r = Some (Finite 0) \<and>
             reason r = ''Failed to parse JSON: '' @ collectResponseText response \<and>
             response_id r = (case resp_id response of Some (JStr s) \<Rightarrow> Some s | _ \<Rightarrow> None)"
proof -
  let ?text = "collectResponseText response"
  have parsed: "parseJsonResponse rt ?text = parse_failure ?text"
    by (rule parseJsonResponse_failure [OF assms(3,4,5)])
  show ?thesis
    unfolding gradeOffer_replied [of rt offer request service response, OF assms(1,2)] parsed parse_failure_def
    by (rule gradeOffer_reconcile_null_score)
qed

lemma gradeOffer_empty_reply:
  assumes "build_request rt offer = Inr request"
    and "service request = Replied response"
    and "collectResponseText response = []"
  shows "\<exists>r. gradeOffer rt service offer = Inr r \<and>
             score r = Some (Finite 0) \<and>
             reason r = ''Empty response from model.'' \<and>
             response_id r = (case resp_id response of Some (JStr s) \<Rightarrow> Some s | _ \<Rightarrow> None)"
proof -
  have parsed: "parseJsonResponse rt (collectResponseText response) =
                  JObj [(''score'', JNull), (''reason'', JStr ''Empty response from model.'')]"
    using assms(3) by (simp add: parseJsonResponse_def)
  show ?thesis
    unfolding gradeOffer_replied [of rt offer request service response, OF assms(1,2)] parsed
    by (rule gradeOffer_reconcile_null_score)
qed

text \<open>
  C2. A reply whose text is empty or is not JSON does not fail the batch: \<open>gradeOffer\<close>
  returns a result, the reason embeds the raw text and the request identifier is
  recorded. The score of that result, however, is 0 and not absent:
  \<open>parseJsonResponse\<close> answers with a \<^verbatim>\<open>null\<close> score, and \<^verbatim>\<open>Number(null)\<close> is 0,
  which \<^verbatim>\<open>Number.isNaN\<close> lets through to the clamp.
\<close>

theorem unparsable_reply_scores_zero:
  "gradeOffer (table_runtime []) unparsable_service (offer_of_urls five_urls) =
     Inr \<lparr> activity_id = JNum (Finite 7), score = Some (Finite 0),
           reason = ''Failed to parse JSON: Sorry, I cannot grade this offer.'',
           categories = [], target_audiences = [], hero_image_index = None,
           hero_image_url = None, hero_image_reason = [],
           response_id = Some ''resp_42'' \<rparr>
   \<and> gradeOffer (table_runtime []) silent_service (offer_of_urls five_urls) =
     Inr \<lparr> activity_id = JNum (Finite 7), score = Some (Finite 0),
           reason = ''Empty response from model.'',
           categories = [], target_audiences = [], hero_image_index = None,
           hero_image_url = None, hero_image_reason = [],
           response_id = Some ''resp_43'' \<rparr>"
  by code_simp

text \<open>
  C5. Numeric scores are clamped to the range from 0 to 5 (\<open>-3\<close>, \<open>0\<close>, \<open>4.7\<close>, \<open>5\<close>,
  \<open>9\<close> give \<open>0\<close>, \<open>0\<close>, \<open>4.7\<close>, \<open>5\<close>, \<open>5\<close>) and a missing score is absent; but a
  score that is not a number is not always absent: \<^verbatim>\<open>Number\<close> coerces \<^verbatim>\<open>null\<close> to 0 and
  \<^verbatim>\<open>true\<close> to 1, so a reply with a \<^verbatim>\<open>null\<close> score is recorded with score 0.
\<close>

theorem null_score_coerced_to_zero:
  "normalise_score rt (Some (JNum (Finite (-3)))) = Inr (Some (Finite 0))
   \<and> normalise_score rt (Some (JNum (Finite 0))) = Inr (Some (Finite 0))
   \<and> normalise_score rt (Some (JNum (Finite (47 / 10)))) = Inr (Some (Finite (47 / 10)))
   \<and> normalise_score rt (Some (JNum (Finite 5))) = Inr (Some (Finite 5))
   \<and> normalise_score rt (Some (JNum (Finite 9))) = Inr (Some (Finite 5))
   \<and> normalise_score rt None = Inr None
   \<and> normalise_score rt (Some (JBool True)) = Inr (Some (Finite 1))
   \<and> (\<exists>r. gradeOffer_reconcile rt offer rid
             (JObj [(''score'', JNull), (''reason'', JStr ''Not enough information to grade.'')]) = Inr r
          \<and> score r = Some (Finite 0)
          \<and> reason r = ''Not enough information to grade.'')"
proof -
  have "\<exists>r. gradeOffer_reconcile rt offer rid
             (JObj [(''score'', JNull), (''reason'', JStr ''Not enough information to grade.'')]) = Inr r
          \<and> score r = Some (Finite 0)
          \<and> reason r = ''Not enough information to grade.''"
    using gradeOffer_reconcile_null_score [of rt offer rid "''Not enough information to grade.''"]
    by blast
  then show ?thesis
    by (simp add: normalise_score_number)
      (simp add: normalise_score_def js_Number_def Math_max0_def Math_min5_def)
qed

section \<open>Properties of the Grading Orchestrator\<close>

text \<open>A sort that returns has permuted its input.\<close>

lemma mset_insert_sorted:
  "insert_sorted cmp x xs = Inr ys \<Longrightarrow> mset ys = add_mset x (mset xs)"
  by (induction xs arbitrary: ys) (auto split: sum.splits if_splits)

lemma mset_Array_sort: "Array_sort cmp xs = Inr ys \<Longrightarrow> mset ys = mset xs"
  by (induction xs arbitrary: ys) (auto split: sum.splits dest: mset_insert_sorted)

lemma set_Array_sort: "Array_sort cmp xs = Inr ys \<Longrightarrow> set ys = set xs"
  using mset_Array_sort [of cmp xs ys] by (metis set_mset_mset)

text \<open>A sort returns when no comparison of two of its elements throws.\<close>

lemma insert_sorted_returns:
  "\<forall>y \<in> set xs. \<not> isl (cmp x y) \<Longrightarrow> \<exists>ys. insert_sorted cmp x xs = Inr ys"
  by (induction xs) (auto split: sum.splits)

lemma Array_sort_returns:
  "\<forall>a \<in> set xs. \<forall>b \<in> set xs. \<not> isl (cmp a b) \<Longrightarrow> \<exists>ys. Array_sort cmp xs = Inr ys"
proof (induction xs)
  case Nil
  show ?case by simp
next
  case (Cons x xs)
  then obtain ys where ys: "Array_sort cmp xs = Inr ys" by auto
  have "set ys = set xs" by (rule set_Array_sort [OF ys])
  with Cons.prems have "\<forall>y \<in> set ys. \<not> isl (cmp x y)" by simp
  from insert_sorted_returns [where xs = ys and cmp = cmp and x = x, OF this] ys
  show ?case by auto
qed




text \<open>The comparison by code units, with and without the soft hyphen.\<close>

lemma code_unit_compare_eq: "code_unit_compare a b = 0 \<longleftrightarrow> a = b"
  by (induction a b rule: code_unit_compare.induct) auto

lemma code_unit_compare_flip: "code_unit_compare a b < 0 \<longleftrightarrow> 0 < code_unit_compare b a"
  by (induction a b rule: code_unit_compare.induct) (auto simp: not_less le_less)

lemma code_unit_compare_le: "code_unit_compare a b \<le> 0 \<longleftrightarrow> lexordp_eq (map (of_char :: char \<Rightarrow> nat) a) (map of_char b)"
  by (induction a b rule: code_unit_compare.induct) auto

lemma code_unit_compare_trans:
  "code_unit_compare a b \<le> 0 \<Longrightarrow> code_unit_compare b d \<le> 0 \<Longrightarrow> code_unit_compare a d \<le> 0"
  unfolding code_unit_compare_le by (rule lexordp_eq_trans)

lemma consistent_code_unit_compare: "consistent_comparator code_unit_compare"
  unfolding consistent_comparator_def
  using code_unit_compare_flip code_unit_compare_trans by blast


text \<open>
  The comparison of \<^verbatim>\<open>gradeOffers\<close> on results whose identifiers convert to strings. It
  is total; it is transitive and antisymmetric among results of which no two different
  ones compare as equal.
\<close>

lemma compare_results_returns:
  "result_id rt a = Inr ia \<Longrightarrow> result_id rt b = Inr ib \<Longrightarrow>
     compare_results rt a b =
       Inr (if ia = ib then localeCompare rt (reason a) (reason b) else localeCompare rt ia ib)"
  by (simp add: compare_results_def)





lemma pool_inv_start:
  assumes "0 < limiter"
  shows "pool_inv G offers (start_workers limiter offers)"
proof -
  have "mset (take limiter offers) + mset (drop limiter offers) = mset offers"
    by (metis append_take_drop_id mset_append)
  moreover have "mset (map G (take limiter offers)) + mset (map G (drop limiter offers)) =
      mset (map G offers)"
    by (metis append_take_drop_id map_append mset_append)
  moreover have "take limiter offers = [] \<longrightarrow> drop limiter offers = []"
    using assms by (cases offers) auto
  ultimately show ?thesis
    by (simp add: pool_inv_def start_workers_def)
qed

lemma pool_inv_settle:
  assumes inv: "pool_inv (gradeOffer rt service) offers p"
  shows "pool_inv (gradeOffer rt service) offers (settle rt service k p)"
proof (cases "in_flight p = []")
  case True
  then show ?thesis using inv by (simp add: settle_def)
next
  case False
  let ?G = "gradeOffer rt service"
  define i where "i = k mod length (in_flight p)"
  define offer where "offer = in_flight p ! i"
  define A where "A = take i (in_flight p)"
  define B where "B = drop (Suc i) (in_flight p)"
  have i: "i < length (in_flight p)" using False by (simp add: i_def)
  have split: "in_flight p = A @ offer # B"
    unfolding A_def B_def offer_def by (rule id_take_nth_drop [OF i])
  have upd: "(in_flight p)[i := x] = A @ x # B" for x
    unfolding A_def B_def by (rule upd_conv_take_nth_drop [OF i])
  have I1: "mset (graded p) + mset (queue p) = mset offers"
    and I2: "set (in_flight p) \<subseteq> set (graded p)"
    and I3: "rejection p = None \<Longrightarrow>
        mset (map Inr (results p)) + mset (map ?G (in_flight p)) + mset (map ?G (queue p)) =
          mset (map ?G offers)"
    and I4: "rejection p = None \<Longrightarrow> in_flight p = [] \<Longrightarrow> queue p = []"
    and I5: "\<forall>r \<in> set (results p). \<exists>offer \<in> set (graded p). ?G offer = Inr r"
    and I6: "\<forall>e. rejection p = Some e \<longrightarrow> (\<exists>offer \<in> set (graded p). ?G offer = Inl e)"
    using inv unfolding pool_inv_def by blast+
  have offer_graded: "offer \<in> set (graded p)" using I2 split by auto
  show ?thesis
  proof (cases "?G offer")
    case (Inl e)
    then have s: "settle rt service k p =
        p\<lparr> in_flight := A @ B,
           rejection := (case rejection p of None \<Rightarrow> Some e | Some e0 \<Rightarrow> Some e0) \<rparr>"
      using False
      by (simp add: settle_def Let_def i_def [symmetric] offer_def [symmetric]
            A_def [symmetric] B_def [symmetric])
    show ?thesis
      unfolding s pool_inv_def using I1 I2 I5 I6 split offer_graded Inl
      by (auto split: option.splits)
  next
    case (Inr result)
    show ?thesis
    proof (cases "queue p")
      case Nil
      then have s: "settle rt service k p =
          p\<lparr> in_flight := A @ B, results := results p @ [result] \<rparr>"
        using False Inr
        by (simp add: settle_def Let_def i_def [symmetric] offer_def [symmetric]
              A_def [symmetric] B_def [symmetric])
      have I3': "rejection p = None \<Longrightarrow>
          mset (map Inr (results p @ [result])) + mset (map ?G (A @ B)) + mset (map ?G (queue p)) =
            mset (map ?G offers)"
        using I3 split Inr by simp
      show ?thesis
        unfolding s pool_inv_def using I1 I2 I3' I5 I6 split Nil offer_graded Inr
        by auto
    next
      case (Cons nxt rest)
      then have s: "settle rt service k p =
          p\<lparr> queue := rest, in_flight := A @ nxt # B,
             results := results p @ [result], graded := graded p @ [nxt] \<rparr>"
        using False Inr
        by (simp add: settle_def Let_def i_def [symmetric] offer_def [symmetric] upd)
      have I1': "mset (graded p @ [nxt]) + mset rest = mset offers"
        using I1 Cons by simp
      have I3': "rejection p = None \<Longrightarrow>
          mset (map Inr (results p @ [result])) + mset (map ?G (A @ nxt # B)) + mset (map ?G rest) =
            mset (map ?G offers)"
        using I3 split Inr Cons by simp
      have I5': "\<forall>r \<in> set (results p @ [result]). \<exists>offer \<in> set (graded p @ [nxt]). ?G offer = Inr r"
        using I5 offer_graded Inr by auto
      have I2': "set (A @ nxt # B) \<subseteq> set (graded p @ [nxt])"
        using I2 split by auto
      have I6': "\<forall>e. rejection p = Some e \<longrightarrow> (\<exists>offer \<in> set (graded p @ [nxt]). ?G offer = Inl e)"
        using I6 by auto
      show ?thesis
        unfolding s pool_inv_def using I1' I2' I3' I5' I6' by simp
    qed
  qed
qed

lemma pool_inv_fold:
  "pool_inv (gradeOffer rt service) offers p \<Longrightarrow>
     pool_inv (gradeOffer rt service) offers (fold (settle rt service) schedule p)"
  by (induction schedule arbitrary: p) (auto intro: pool_inv_settle)

lemma limiter_of_pos: "0 < limiter_of concurrency"
  by (simp add: limiter_of_def limiter_number_def)

lemma pool_inv_run:
  "pool_inv (gradeOffer rt service) offers
     (fold (settle rt service) schedule (start_workers (limiter_of concurrency) offers))"
  by (rule pool_inv_fold [OF pool_inv_start [OF limiter_of_pos]])

text \<open>The identifier of a result converts to a string: the prompt has converted it before.\<close>

lemma nullish_or_result_id:
  "nullish_or rt v d = Inr s \<Longrightarrow>
     \<exists>t. (case nullish_json v of JNull \<Rightarrow> Inr [] | x \<Rightarrow> js_String rt x) = Inr t"
  by (auto simp: nullish_or_def nullish_json_def split: option.splits json.splits)

lemma gradeOffer_reconcile_activity_id:
  "gradeOffer_reconcile rt offer rid parsed = Inr r \<Longrightarrow>
     activity_id r = nullish_json (StructuredOffer.activity_id offer)"
  by (auto simp: gradeOffer_reconcile_def Let_def split: if_splits prod.splits sum.splits)

lemma gradeOffer_activity_id:
  assumes "gradeOffer rt service offer = Inr r"
  shows "activity_id r = nullish_json (StructuredOffer.activity_id offer) \<and>
         (\<exists>prompt. buildOfferPrompt rt offer = Inr prompt)"
proof (cases "buildOfferPrompt rt offer")
  case (Inl e)
  with assms show ?thesis by (simp add: gradeOffer_def)
next
  case (Inr prompt)
  show ?thesis
  proof (cases "request_of rt offer prompt")
    case (Inl e)
    with assms Inr show ?thesis by (auto simp: gradeOffer_def failure_result_def)
  next
    case request: (Inr request)
    show ?thesis
    proof (cases "service request")
      case (CallFailed details)
      with assms Inr request show ?thesis by (auto simp: gradeOffer_def failure_result_def)
    next
      case (Replied response)
      with assms Inr request show ?thesis
        by (auto simp: gradeOffer_def dest: gradeOffer_reconcile_activity_id)
    qed
  qed
qed

lemma gradeOffer_result_id:
  assumes "gradeOffer rt service offer = Inr r"
  shows "\<exists>s. result_id rt r = Inr s"
proof -
  from gradeOffer_activity_id [OF assms] obtain prompt
    where aid: "activity_id r = nullish_json (StructuredOffer.activity_id offer)"
      and prompt: "buildOfferPrompt rt offer = Inr prompt" by blast
  from prompt obtain idText where "nullish_or rt (StructuredOffer.activity_id offer) ''N/A'' = Inr idText"
    by (auto simp: buildOfferPrompt_def split: sum.splits)
  from nullish_or_result_id [OF this] show ?thesis
    by (simp add: result_id_def aid)
qed

text \<open>
  When the metadata of the request cannot be built, neither can the prompt: the
  \<^verbatim>\<open>catch\<close> block of \<^verbatim>\<open>gradeOffer\<close> is reached by a failing call only.
\<close>

lemma request_of_returns:
  "buildOfferPrompt rt offer = Inr prompt \<Longrightarrow> \<exists>request. request_of rt offer prompt = Inr request"
  by (auto simp: buildOfferPrompt_def request_of_def nullish_or_def
        split: sum.splits option.splits json.splits)

lemma gradeOffers_resolved:
  assumes "fst (gradeOffers rt service schedule offers concurrency) = Resolved rs"
  shows "\<exists>arrival. mset (map Inr arrival) = mset (map (gradeOffer rt service) offers) \<and>
                   Array_sort (compare_results rt) arrival = Inr rs"
proof (cases "offers = []")
  case True
  then have "rs = []" using assms by (simp add: gradeOffers_def)
  then show ?thesis using True by (intro exI [of _ "[]"]) simp
next
  case False
  let ?p = "fold (settle rt service) schedule (start_workers (limiter_of concurrency) offers)"
  have inv: "pool_inv (gradeOffer rt service) offers ?p" by (rule pool_inv_run)
  from assms False have fin: "rejection ?p = None" "in_flight ?p = []"
    and rs: "Array_sort (compare_results rt) (results ?p) = Inr rs"
    by (auto simp: gradeOffers_def Let_def split: option.splits if_splits sum.splits)
  from inv fin have "queue ?p = []" by (simp add: pool_inv_def)
  with inv fin have "mset (map Inr (results ?p)) = mset (map (gradeOffer rt service) offers)"
    by (simp add: pool_inv_def)
  with rs show ?thesis by blast
qed


text \<open>
  The promise of \<^verbatim>\<open>gradeOffers\<close> is rejected only by \<^verbatim>\<open>Array.from\<close> or by a
  \<^verbatim>\<open>gradeOffer\<close> that throws: the sort of the results does not throw.
\<close>

lemma gradeOffers_rejected:
  assumes "fst (gradeOffers rt service schedule offers concurrency) = Rejected e"
  shows "(e = RangeError \<and> 2 ^ 32 \<le> limiter_number concurrency) \<or>
         (\<exists>offer \<in> set offers. gradeOffer rt service offer = Inl e)"
proof (cases "offers = [] \<or> 2 ^ 32 \<le> limiter_number concurrency")
  case True
  with assms show ?thesis by (auto simp: gradeOffers_def split: if_splits)
next
  case False
  let ?G = "gradeOffer rt service"
  let ?p = "fold (settle rt service) schedule (start_workers (limiter_of concurrency) offers)"
  have inv: "pool_inv ?G offers ?p" by (rule pool_inv_run)
  then have "mset (graded ?p) + mset (queue ?p) = mset offers" by (simp add: pool_inv_def)
  then have graded: "set (graded ?p) \<subseteq> set offers"
    by (metis Un_upper1 set_mset_mset set_mset_union)
  have ids: "\<forall>r \<in> set (results ?p). \<exists>s. result_id rt r = Inr s"
    using inv gradeOffer_result_id unfolding pool_inv_def by blast
  have "\<not> isl (compare_results rt a b)"
    if "a \<in> set (results ?p)" "b \<in> set (results ?p)" for a b
  proof -
    from ids that obtain ia ib where "result_id rt a = Inr ia" "result_id rt b = Inr ib"
      by blast
    from compare_results_returns [OF this] show ?thesis by simp
  qed
  then have "\<forall>a \<in> set (results ?p). \<forall>b \<in> set (results ?p). \<not> isl (compare_results rt a b)"
    by blast
  from Array_sort_returns [OF this] obtain ys
    where "Array_sort (compare_results rt) (results ?p) = Inr ys" by blast
  with assms False have "rejection ?p = Some e"
    by (auto simp: gradeOffers_def Let_def split: option.splits if_splits)
  with inv graded show ?thesis unfolding pool_inv_def by blast
qed

lemma gradeOffers_calls:
  "set (snd (gradeOffers rt service schedule offers concurrency)) \<subseteq> set offers"
proof (cases "offers = [] \<or> 2 ^ 32 \<le> limiter_number concurrency")
  case True
  then show ?thesis by (auto simp: gradeOffers_def)
next
  case False
  let ?p = "fold (settle rt service) schedule (start_workers (limiter_of concurrency) offers)"
  have "pool_inv (gradeOffer rt service) offers ?p" by (rule pool_inv_run)
  then have "mset (graded ?p) + mset (queue ?p) = mset offers" by (simp add: pool_inv_def)
  then have "set (graded ?p) \<subseteq> set offers"
    by (metis Un_upper1 set_mset_mset set_mset_union)
  with False show ?thesis by (auto simp: gradeOffers_def Let_def)
qed

text \<open>Every call that settles takes one offer out of the pool.\<close>

lemma settle_idle: "in_flight p = [] \<Longrightarrow> settle rt service k p = p"
  by (simp add: settle_def)

lemma fold_settle_idle: "in_flight p = [] \<Longrightarrow> fold (settle rt service) schedule p = p"
  by (induction schedule) (simp_all add: settle_idle)

lemma settle_measure:
  assumes "in_flight p \<noteq> []"
  shows "Suc (length (in_flight (settle rt service k p)) + length (queue (settle rt service k p))) =
           length (in_flight p) + length (queue p)"
proof -
  let ?i = "k mod length (in_flight p)"
  have i: "?i < length (in_flight p)" using assms by simp
  then have len: "Suc (length (take ?i (in_flight p) @ drop (Suc ?i) (in_flight p))) =
                    length (in_flight p)"
    by simp
  show ?thesis
    using assms len
    by (auto simp: settle_def Let_def split: sum.splits list.splits)
qed

lemma fold_settle_measure:
  "in_flight (fold (settle rt service) schedule p) \<noteq> [] \<Longrightarrow>
     length (in_flight (fold (settle rt service) schedule p)) +
     length (queue (fold (settle rt service) schedule p)) + length schedule =
       length (in_flight p) + length (queue p)"
proof (induction schedule arbitrary: p)
  case Nil
  show ?case by simp
next
  case (Cons k ks)
  have busy: "in_flight p \<noteq> []"
  proof
    assume "in_flight p = []"
    then have "fold (settle rt service) (k # ks) p = p" by (rule fold_settle_idle)
    with Cons.prems \<open>in_flight p = []\<close> show False by simp
  qed
  from Cons.prems have "in_flight (fold (settle rt service) ks (settle rt service k p)) \<noteq> []"
    by simp
  from Cons.IH [OF this] settle_measure [OF busy, of rt service k]
  show ?case by simp
qed

lemma gradeOffers_settles:
  assumes "length offers \<le> length schedule"
  shows "fst (gradeOffers rt service schedule offers concurrency) \<noteq> Pending"
proof (cases "offers = []")
  case True
  then show ?thesis by (simp add: gradeOffers_def)
next
  case False
  let ?init = "start_workers (limiter_of concurrency) offers"
  let ?p = "fold (settle rt service) schedule ?init"
  have start: "length (in_flight ?init) + length (queue ?init) = length offers"
    by (simp add: start_workers_def)
  have "in_flight ?p = []"
  proof (rule ccontr)
    assume busy: "in_flight ?p \<noteq> []"
    from fold_settle_measure [OF busy] start
    have "length (in_flight ?p) + length (queue ?p) + length schedule = length offers"
      by simp
    moreover have "0 < length (in_flight ?p)" using busy by simp
    ultimately show False using assms by linarith
  qed
  with False show ?thesis
    by (simp add: gradeOffers_def Let_def split: option.splits sum.splits)
qed

lemma upper_lower_char:
  "lower_char (if 97 \<le> (of_char c :: nat) \<and> (of_char c :: nat) \<le> 122
               then char_of (of_char c - 32 :: nat) else c) = lower_char c"
  by (auto simp: lower_char_def)


lemma upper_char_lower:
  "(if 97 \<le> (of_char (lower_char c) :: nat) \<and> (of_char (lower_char c) :: nat) \<le> 122
    then char_of (of_char (lower_char c) - 32 :: nat) else lower_char c) =
   (if 97 \<le> (of_char c :: nat) \<and> (of_char c :: nat) \<le> 122
    then char_of (of_char c - 32 :: nat) else c)"
  by (auto simp: lower_char_def)

lemma lower_toUpperCase: "map lower_char (toUpperCase s) = map lower_char s"
  by (simp add: toUpperCase_def upper_lower_char)

lemma toUpperCase_lower: "toUpperCase (map lower_char s) = toUpperCase s"
  by (simp add: toUpperCase_def upper_char_lower)

lemma toUpperCase_CURATED:
  "toUpperCase s = ''CURATED'' \<longleftrightarrow> equals_ignoring_case s ''CURATED''"
proof
  assume "toUpperCase s = ''CURATED''"
  then have "map lower_char (toUpperCase s) = map lower_char ''CURATED''" by simp
  then show "equals_ignoring_case s ''CURATED''"
    by (simp only: lower_toUpperCase equals_ignoring_case_def)
next
  assume "equals_ignoring_case s ''CURATED''"
  then have "toUpperCase (map lower_char s) = toUpperCase (map lower_char ''CURATED'')"
    by (simp only: equals_ignoring_case_def)
  then have "toUpperCase s = toUpperCase ''CURATED''"
    by (simp only: toUpperCase_lower)
  also have "toUpperCase ''CURATED'' = ''CURATED''"
    by (simp add: toUpperCase_def)
  finally show "toUpperCase s = ''CURATED''" .
qed




text \<open>
  Results need not share their identifier string to compare as equal: under a
  comparison that ignores the soft hyphen, the identifiers \<^verbatim>\<open>coop\<close> and \<^verbatim>\<open>co\<close>, soft
  hyphen, \<^verbatim>\<open>op\<close> compare as equal, and the two results come out in their order of
  arrival.
\<close>

lemma gradeOffers_order_soft_hyphen:
  "fst (gradeOffers (table_runtime []\<lparr>localeCompare := hyphen_blind_compare\<rparr>) mute_service [0, 0]
          [offer_with_status (JStr ''coop'') JNull [''https://img/a.jpg''],
           offer_with_status (JStr (''co'' @ [CHR 0xAD] @ ''op'')) JNull [''https://img/b.jpg'']]
          (Finite 2)) =
     Resolved
       [\<lparr> activity_id = JStr ''coop'', score = Some (Finite 0),
           reason = ''Empty response from model.'', categories = [], target_audiences = [],
           hero_image_index = None, hero_image_url = None, hero_image_reason = [],
           response_id = Some ''resp_https://img/a.jpg'' \<rparr>,
        \<lparr> activity_id = JStr (''co'' @ [CHR 0xAD] @ ''op''), score = Some (Finite 0),
           reason = ''Empty response from model.'', categories = [], target_audiences = [],
           hero_image_index = None, hero_image_url = None, hero_image_reason = [],
           response_id = Some ''resp_https://img/b.jpg'' \<rparr>]
   \<and> fst (gradeOffers (table_runtime []\<lparr>localeCompare := hyphen_blind_compare\<rparr>) mute_service [1, 0]
          [offer_with_status (JStr ''coop'') JNull [''https://img/a.jpg''],
           offer_with_status (JStr (''co'' @ [CHR 0xAD] @ ''op'')) JNull [''https://img/b.jpg'']]
          (Finite 2)) =
     Resolved
       [\<lparr> activity_id = JStr (''co'' @ [CHR 0xAD] @ ''op''), score = Some (Finite 0),
           reason = ''Empty response from model.'', categories = [], target_audiences = [],
           hero_image_index = None, hero_image_url = None, hero_image_reason = [],
           response_id = Some ''resp_https://img/b.jpg'' \<rparr>,
        \<lparr> activity_id = JStr ''coop'', score = Some (Finite 0),
           reason = ''Empty response from model.'', categories = [], target_audiences = [],
           hero_image_index = None, hero_image_url = None, hero_image_reason = [],
           response_id = Some ''resp_https://img/a.jpg'' \<rparr>]"
  by code_simp

text \<open>The filter of \<^verbatim>\<open>main\<close> returns when every status label can be built.\<close>

lemma offersToGrade_filter:
  "offersToGrade rt offers = Inr queued \<Longrightarrow>
     queued = filter (\<lambda>offer. \<exists>label. status_label rt offer = Inr label \<and>
                               \<not> equals_ignoring_case label ''CURATED'') offers"
  by (induction offers arbitrary: queued) (auto simp: toUpperCase_CURATED split: sum.splits)

lemma offersToGrade_returns:
  "(\<exists>queued. offersToGrade rt offers = Inr queued) \<longleftrightarrow>
     (\<forall>offer \<in> set offers. \<exists>label. status_label rt offer = Inr label)"
proof (induction offers)
  case Nil
  show ?case by simp
next
  case (Cons offer offers)
  show ?case
  proof (cases "status_label rt offer")
    case (Inl e)
    then show ?thesis by auto
  next
    case (Inr label)
    then show ?thesis using Cons.IH by (cases "offersToGrade rt offers") auto
  qed
qed

text \<open>
  C9. When the filter of \<^verbatim>\<open>main\<close> returns, which it does exactly when every status
  label can be built, it queues exactly the offers whose status label is not equal to
  \<^verbatim>\<open>CURATED\<close> up to case; the service is called for queued offers only; the exported
  rows are the results of the queued offers; and when no offer is queued, no call is
  made and nothing is exported. When the filter throws, no call is made and nothing is
  exported either.
\<close>

theorem main_excludes_curated:
  "(\<forall>queued. offersToGrade rt offers = Inr queued \<longrightarrow>
       queued = filter (\<lambda>offer. \<exists>label. status_label rt offer = Inr label \<and>
                                 \<not> equals_ignoring_case label ''CURATED'') offers
     \<and> set (service_calls (main rt service schedule concurrency offers)) \<subseteq> set queued
     \<and> (\<forall>rs. csv_rows (main rt service schedule concurrency offers) = Some rs \<longrightarrow>
            mset (map Inr rs) = mset (map (gradeOffer rt service) queued))
     \<and> (queued = [] \<longrightarrow>
            service_calls (main rt service schedule concurrency offers) = [] \<and>
            csv_rows (main rt service schedule concurrency offers) = None))
   \<and> ((\<exists>queued. offersToGrade rt offers = Inr queued) \<longleftrightarrow>
        (\<forall>offer \<in> set offers. \<exists>label. status_label rt offer = Inr label))
   \<and> (\<forall>e. offersToGrade rt offers = Inl e \<longrightarrow>
          service_calls (main rt service schedule concurrency offers) = [] \<and>
          csv_rows (main rt service schedule concurrency offers) = None \<and>
          thrown (main rt service schedule concurrency offers) = Some e)"
proof -
  let ?run = "main rt service schedule concurrency offers"
  have queued_case:
    "queued = filter (\<lambda>offer. \<exists>label. status_label rt offer = Inr label \<and>
                                 \<not> equals_ignoring_case label ''CURATED'') offers
     \<and> set (service_calls ?run) \<subseteq> set queued
     \<and> (\<forall>rs. csv_rows ?run = Some rs \<longrightarrow>
            mset (map Inr rs) = mset (map (gradeOffer rt service) queued))
     \<and> (queued = [] \<longrightarrow> service_calls ?run = [] \<and> csv_rows ?run = None)"
    if q: "offersToGrade rt offers = Inr queued" for queued
  proof -
    let ?go = "gradeOffers rt service schedule queued concurrency"
    have filt: "queued = filter (\<lambda>offer. \<exists>label. status_label rt offer = Inr label \<and>
                                 \<not> equals_ignoring_case label ''CURATED'') offers"
      by (rule offersToGrade_filter [OF q])
    have calls: "set (service_calls ?run) \<subseteq> set queued"
      using gradeOffers_calls [of rt service schedule queued concurrency] q
      by (auto simp: main_def split: prod.splits)
    have rows: "mset (map Inr rs) = mset (map (gradeOffer rt service) queued)"
      if "csv_rows ?run = Some rs" for rs
    proof -
      from that q have "fst ?go = Resolved rs"
        by (auto simp: main_def split: if_splits prod.splits promise.splits)
      from gradeOffers_resolved [OF this] obtain arrival
        where a: "mset (map Inr arrival) = mset (map (gradeOffer rt service) queued)"
          and s: "Array_sort (compare_results rt) arrival = Inr rs" by blast
      from mset_Array_sort [OF s] have "mset (map Inr rs) = mset (map Inr arrival)" by simp
      then show ?thesis using a by (rule trans)
    qed
    have none: "service_calls ?run = [] \<and> csv_rows ?run = None" if "queued = []"
      using that q by (simp add: main_def)
    show ?thesis using filt calls rows none by blast
  qed
  have thrown_case:
    "service_calls ?run = [] \<and> csv_rows ?run = None \<and> thrown ?run = Some e"
    if "offersToGrade rt offers = Inl e" for e
    using that by (simp add: main_def)
  show ?thesis
    using queued_case thrown_case offersToGrade_returns [of rt offers] by blast
qed

theorem main_excludes_curated_witness:
  "offersToGrade (table_runtime [])
       [offer_with_status (JNum (Finite 7)) JNull [''https://img/a.jpg''],
        offer_with_status (JNum (Finite 8)) (JStr ''Curated'') [''https://img/c.jpg''],
        offer_with_status (JNum (Finite 3)) (JStr ''LIVE'') [''https://img/b.jpg'']] =
     Inr [offer_with_status (JNum (Finite 7)) JNull [''https://img/a.jpg''],
          offer_with_status (JNum (Finite 3)) (JStr ''LIVE'') [''https://img/b.jpg'']]
   \<and> service_calls (main (table_runtime []) mute_service [1, 0] (Finite 4)
          [offer_with_status (JNum (Finite 7)) JNull [''https://img/a.jpg''],
           offer_with_status (JNum (Finite 8)) (JStr ''Curated'') [''https://img/c.jpg''],
           offer_with_status (JNum (Finite 3)) (JStr ''LIVE'') [''https://img/b.jpg'']]) =
     [offer_with_status (JNum (Finite 7)) JNull [''https://img/a.jpg''],
      offer_with_status (JNum (Finite 3)) (JStr ''LIVE'') [''https://img/b.jpg'']]
   \<and> csv_rows (main (table_runtime []) mute_service [1, 0] (Finite 4)
          [offer_with_status (JNum (Finite 7)) JNull [''https://img/a.jpg''],
           offer_with_status (JNum (Finite 8)) (JStr ''Curated'') [''https://img/c.jpg''],
           offer_with_status (JNum (Finite 3)) (JStr ''LIVE'') [''https://img/b.jpg'']]) =
     Some [\<lparr> activity_id = JNum (Finite 3), score = Some (Finite 0),
             reason = ''Empty response from model.'', categories = [], target_audiences = [],
             hero_image_index = None, hero_image_url = None, hero_image_reason = [],
             response_id = Some ''resp_https://img/b.jpg'' \<rparr>,
           \<lparr> activity_id = JNum (Finite 7), score = Some (Finite 0),
             reason = ''Empty response from model.'', categories = [], target_audiences = [],
             hero_image_index = None, hero_image_url = None, hero_image_reason = [],
             response_id = Some ''resp_https://img/a.jpg'' \<rparr>]
   \<and> mset (map Inr
         [\<lparr> activity_id = JNum (Finite 3), score = Some (Finite 0),
             reason = ''Empty response from model.'', categories = [], target_audiences = [],
             hero_image_index = None, hero_image_url = None, hero_image_reason = [],
             response_id = Some ''resp_https://img/b.jpg'' \<rparr>,
           \<lparr> activity_id = JNum (Finite 7), score = Some (Finite 0),
             reason = ''Empty response from model.'', categories = [], target_audiences = [],
             hero_image_index = None, hero_image_url = None, hero_image_reason = [],
             response_id = Some ''resp_https://img/a.jpg'' \<rparr>]) =
       mset (map (gradeOffer (table_runtime []) mute_service)
         [offer_with_status (JNum (Finite 7)) JNull [''https://img/a.jpg''],
          offer_with_status (JNum (Finite 3)) (JStr ''LIVE'') [''https://img/b.jpg'']])
   \<and> offersToGrade (table_runtime [])
         [offer_with_status (JNum (Finite 8)) (JStr ''Curated'') [''https://img/c.jpg'']] = Inr []
   \<and> service_calls (main (table_runtime []) mute_service [1, 0] (Finite 4)
         [offer_with_status (JNum (Finite 8)) (JStr ''Curated'') [''https://img/c.jpg'']]) = []
   \<and> csv_rows (main (table_runtime []) mute_service [1, 0] (Finite 4)
         [offer_with_status (JNum (Finite 8)) (JStr ''Curated'') [''https://img/c.jpg'']]) = None
   \<and> offersToGrade (table_runtime [])
         [offer_with_status (JNum (Finite 7)) JNull [''https://img/a.jpg''],
          offer_with_status (JNum (Finite 9)) (JObj [(''toString'', JNull)]) [''https://img/d.jpg'']] =
       Inl TypeError
   \<and> service_calls (main (table_runtime []) mute_service [1, 0] (Finite 4)
         [offer_with_status (JNum (Finite 7)) JNull [''https://img/a.jpg''],
          offer_with_status (JNum (Finite 9)) (JObj [(''toString'', JNull)]) [''https://img/d.jpg'']]) = []
   \<and> thrown (main (table_runtime []) mute_service [1, 0] (Finite 4)
         [offer_with_status (JNum (Finite 7)) JNull [''https://img/a.jpg''],
          offer_with_status (JNum (Finite 9)) (JObj [(''toString'', JNull)]) [''https://img/d.jpg'']]) =
       Some TypeError"
proof -
  let ?rt = "table_runtime []"
  let ?o7 = "offer_with_status (JNum (Finite 7)) JNull [''https://img/a.jpg'']"
  let ?o8 = "offer_with_status (JNum (Finite 8)) (JStr ''Curated'') [''https://img/c.jpg'']"
  let ?o3 = "offer_with_status (JNum (Finite 3)) (JStr ''LIVE'') [''https://img/b.jpg'']"
  let ?o9 = "offer_with_status (JNum (Finite 9)) (JObj [(''toString'', JNull)]) [''https://img/d.jpg'']"
  let ?r3 = "\<lparr> activity_id = JNum (Finite 3), score = Some (Finite 0),
             reason = ''Empty response from model.'', categories = [], target_audiences = [],
             hero_image_index = None, hero_image_url = None, hero_image_reason = [],
             response_id = Some ''resp_https://img/b.jpg'' \<rparr>"
  let ?r7 = "\<lparr> activity_id = JNum (Finite 7), score = Some (Finite 0),
             reason = ''Empty response from model.'', categories = [], target_audiences = [],
             hero_image_index = None, hero_image_url = None, hero_image_reason = [],
             response_id = Some ''resp_https://img/a.jpg'' \<rparr>"
  have queued: "offersToGrade ?rt [?o7, ?o8, ?o3] = Inr [?o7, ?o3]"
    by code_simp
  have calls: "service_calls (main ?rt mute_service [1, 0] (Finite 4) [?o7, ?o8, ?o3]) = [?o7, ?o3]"
    by code_simp
  have rows: "csv_rows (main ?rt mute_service [1, 0] (Finite 4) [?o7, ?o8, ?o3]) = Some [?r3, ?r7]"
    by code_simp
  have none: "offersToGrade ?rt [?o8] = Inr []"
    by code_simp
  have throws: "offersToGrade ?rt [?o7, ?o9] = Inl TypeError"
    by code_simp
  from main_excludes_curated [of ?rt "[?o7, ?o8, ?o3]" mute_service "[1, 0]" "Finite 4"] queued rows
  have exported: "mset (map Inr [?r3, ?r7]) = mset (map (gradeOffer ?rt mute_service) [?o7, ?o3])"
    by blast
  from main_excludes_curated [of ?rt "[?o8]" mute_service "[1, 0]" "Finite 4"] none
  have idle: "service_calls (main ?rt mute_service [1, 0] (Finite 4) [?o8]) = [] \<and>
        csv_rows (main ?rt mute_service [1, 0] (Finite 4) [?o8]) = None"
    by blast
  from main_excludes_curated [of ?rt "[?o7, ?o9]" mute_service "[1, 0]" "Finite 4"] throws
  have fatal: "service_calls (main ?rt mute_service [1, 0] (Finite 4) [?o7, ?o9]) = [] \<and>
        thrown (main ?rt mute_service [1, 0] (Finite 4) [?o7, ?o9]) = Some TypeError"
    by blast
  from queued calls rows exported none idle throws fatal show ?thesis by blast
qed

end
